theory Spec2Isabelle
  imports Complex_Main "HOL-Library.Word"
begin

unbundle bit_operations_syntax

section \<open>The software mixer of src/src/sound.cpp\<close>

text \<open>
  The embedding follows \<^verbatim>\<open>sound.cpp\<close> function by function. The global
  variables of the file (\<^verbatim>\<open>playing_sounds\<close>, \<^verbatim>\<open>master_volume\<close>,
  \<^verbatim>\<open>total_samples_played\<close>, \<^verbatim>\<open>total_time_played\<close>) are the fields of one
  state record that every operation takes and returns. A \<^verbatim>\<open>PcmSound\<close> object lives at
  an address (a natural number); the state maps addresses to objects, and a voice holds
  the address of its asset, as the source holds a pointer.

  Numbers: the 32-bit \<^verbatim>\<open>version\<close> and handle are \<open>32 word\<close>. The C types
  \<^verbatim>\<open>float\<close> and \<^verbatim>\<open>double\<close> are idealised as \<open>real\<close>: rounding, infinities
  and NaN are not represented, and a conversion to an integer type is the truncation of
  the real number. Frame counts and channel counts are \<open>nat\<close>.
\<close>

type_synonym float = real
type_synonym double = real

definition MAX_PLAYING_SOUNDS :: nat where
  "MAX_PLAYING_SOUNDS = 128"

definition PLAYING_SOUNDS_MASK :: "32 word" where
  "PLAYING_SOUNDS_MASK = 127"

definition ONE_DIV_512 :: float where
  "ONE_DIV_512 = 1 / 512"

subsection \<open>Helpers declared outside sound.cpp\<close>

text \<open>
  Modelled from the spec: \<^verbatim>\<open>clamp\<close>, \<^verbatim>\<open>lerp\<close> and \<^verbatim>\<open>sign\<close> come from headers
  that are not part of the sources at hand. \<open>clamp\<close> restricts a value to a closed range,
  \<open>lerp\<close> is the linear interpolation "between \<open>sample[floor(pos)]\<close> and
  \<open>sample[floor(pos)+1]\<close> with fractional weight", \<open>sign\<close> is the sign used in
  \<open>trend = -sign(gain) / 10000\<close>.
\<close>

definition clamp :: "real \<Rightarrow> real \<Rightarrow> real \<Rightarrow> real" where
  "clamp v lo hi = (if v < lo then lo else if hi < v then hi else v)"

definition lerp :: "float \<Rightarrow> float \<Rightarrow> float \<Rightarrow> float" where
  "lerp a b t = a + (b - a) * t"

definition sign :: "float \<Rightarrow> float" where
  "sign x = (if x < 0 then - 1 else if 0 < x then 1 else 0)"

text \<open>The C conversion of a floating value to an integer type drops the fraction.\<close>

definition trunc :: "real \<Rightarrow> int" where
  "trunc x = (if x < 0 then - \<lfloor>- x\<rfloor> else \<lfloor>x\<rfloor>)"

text \<open>\<^verbatim>\<open>unsigned(pos)\<close>, used as an array index.\<close>

definition to_unsigned :: "double \<Rightarrow> nat" where
  "to_unsigned x = nat (trunc x)"

subsection \<open>Data model\<close>

text \<open>
  \<^verbatim>\<open>struct PcmSound\<close>. The buffer pointer is \<open>None\<close> for \<^verbatim>\<open>nullptr\<close>;
  otherwise it is the block of floats allocated by \<^verbatim>\<open>newData\<close>.
\<close>

record PcmSound =
  data :: "float list option"
  frequency :: int
  samples :: nat
  channels :: nat

text \<open>\<^verbatim>\<open>PcmSound()\<close>, the default constructor.\<close>

definition PcmSound_new :: PcmSound where
  "PcmSound_new = \<lparr> data = None, frequency = 44100, samples = 0,
     PcmSound.channels = 1 \<rparr>"

definition isValid :: "PcmSound \<Rightarrow> bool" where
  "isValid s = (data s \<noteq> None)"

text \<open>\<^verbatim>\<open>getDataMemorySize\<close>, counted in floats instead of bytes.\<close>

definition getDataSize :: "PcmSound \<Rightarrow> nat" where
  "getDataSize s = PcmSound.channels s * (samples s + 4)"

text \<open>
  \<^verbatim>\<open>sound->getData()[i]\<close>. A read through a null pointer or past the block is
  undefined in the source; the model leaves its value unspecified.
\<close>

definition getData_at :: "PcmSound \<Rightarrow> nat \<Rightarrow> float" where
  "getData_at s i = the (data s) ! i"

text \<open>\<^verbatim>\<open>struct PlayingSound\<close>: one slot of the voice table.\<close>

record PlayingSound =
  sound :: "nat option"
  pos :: double
  startPos :: double
  stopPos :: double
  pitch :: float
  volume :: float
  pan :: float
  volumeL :: float
  volumeR :: float
  volumeTrendL :: float
  volumeTrendR :: float
  timeToStart :: double
  channels :: nat
  version :: "32 word"
  loop :: bool
  stopMode :: bool
  waitingStart :: bool

text \<open>\<^verbatim>\<open>PlayingSound()\<close>: the constructor clears every field.\<close>

definition PlayingSound_new :: PlayingSound where
  "PlayingSound_new = \<lparr> sound = None, pos = 0, startPos = 0, stopPos = 0, pitch = 0,
     volume = 0, pan = 0, volumeL = 0, volumeR = 0, volumeTrendL = 0, volumeTrendR = 0,
     timeToStart = 0, channels = 0, version = 0, loop = False, stopMode = False,
     waitingStart = False \<rparr>"

definition isEmpty :: "PlayingSound \<Rightarrow> bool" where
  "isEmpty s = (sound s = None \<and> \<not> stopMode s \<and> \<not> waitingStart s)"

text \<open>The globals of the file, and the objects the voices point to.\<close>

record mixer =
  playing_sounds :: "PlayingSound list"
  master_volume :: float
  total_samples_played :: int
  total_time_played :: double
  pcm :: "nat \<Rightarrow> PcmSound"

text \<open>The state after \<^verbatim>\<open>initialize()\<close>, with the assets \<open>h\<close> in memory.\<close>

definition initialize :: "(nat \<Rightarrow> PcmSound) \<Rightarrow> mixer" where
  "initialize h = \<lparr> playing_sounds = replicate MAX_PLAYING_SOUNDS PlayingSound_new,
     master_volume = 1, total_samples_played = 0, total_time_played = 0, pcm = h \<rparr>"

subsection \<open>Stopping a voice\<close>

text \<open>
  \<^verbatim>\<open>PlayingSound::setStopMode\<close>. The asset is passed in, as the method reads it
  through the voice's pointer.
\<close>

definition setStopMode :: "(nat \<Rightarrow> PcmSound) \<Rightarrow> PlayingSound \<Rightarrow> PlayingSound" where
  "setStopMode h s =
    (case sound s of
       None \<Rightarrow> s\<lparr>waitingStart := False\<rparr>
     | Some a \<Rightarrow>
        if stopMode s then s\<lparr>waitingStart := False\<rparr>
        else
          let s1 = s\<lparr>version := version s + 128\<rparr> in
          if waitingStart s1 then s1\<lparr>waitingStart := False, sound := None\<rparr>
          else
            let s2 =
              (if channels s1 = 1 then
                 let val = getData_at (h a) (to_unsigned (pos s1)) in
                 s1\<lparr>volumeL := volumeL s1 * val, volumeR := volumeR s1 * val\<rparr>
               else
                 s1\<lparr>volumeL := volumeL s1 * getData_at (h a) (to_unsigned (pos s1) * 2),
                    volumeR := volumeR s1 * getData_at (h a) (to_unsigned (pos s1) * 2 + 1)\<rparr>)
            in s2\<lparr>volumeTrendL := sign (volumeL s2) * - (1 / 10000),
                  volumeTrendR := sign (volumeR s2) * - (1 / 10000),
                  stopMode := True, sound := None\<rparr>)"

subsection \<open>Handles\<close>

text \<open>
  Modelled from the spec: \<^verbatim>\<open>PlayingSoundHandle\<close> is declared in a header that is not
  at hand. It wraps one 32-bit value, and the default-constructed handle is the zero
  handle ("a zero handle is always invalid").
\<close>

type_synonym PlayingSoundHandle = "32 word"

definition PlayingSoundHandle_new :: PlayingSoundHandle where
  "PlayingSoundHandle_new = 0"

definition is_handle_valid :: "mixer \<Rightarrow> PlayingSoundHandle \<Rightarrow> bool" where
  "is_handle_valid m ps =
    (let idx = unat (ps AND PLAYING_SOUNDS_MASK) in
     version (playing_sounds m ! idx) = (ps AND NOT PLAYING_SOUNDS_MASK) \<and> idx > 0)"

text \<open>\<^verbatim>\<open>handle_to_index\<close>: \<open>None\<close> stands for the result \<open>-1\<close>.\<close>

definition handle_to_index :: "mixer \<Rightarrow> PlayingSoundHandle \<Rightarrow> nat option" where
  "handle_to_index m ps =
    (if \<not> is_handle_valid m ps then None else Some (unat (ps AND PLAYING_SOUNDS_MASK)))"

subsection \<open>Control surface\<close>

definition set_voice :: "mixer \<Rightarrow> nat \<Rightarrow> PlayingSound \<Rightarrow> mixer" where
  "set_voice m idx s = m\<lparr>playing_sounds := (playing_sounds m)[idx := s]\<rparr>"

definition set_sound_pitch :: "PlayingSoundHandle \<Rightarrow> float \<Rightarrow> mixer \<Rightarrow> mixer" where
  "set_sound_pitch handle p m =
    (case handle_to_index m handle of
       None \<Rightarrow> m
     | Some idx \<Rightarrow> set_voice m idx ((playing_sounds m ! idx)\<lparr>pitch := p\<rparr>))"

definition set_sound_volume :: "PlayingSoundHandle \<Rightarrow> float \<Rightarrow> mixer \<Rightarrow> mixer" where
  "set_sound_volume handle v m =
    (case handle_to_index m handle of
       None \<Rightarrow> m
     | Some idx \<Rightarrow> set_voice m idx ((playing_sounds m ! idx)\<lparr>volume := v\<rparr>))"

definition set_sound_pan :: "PlayingSoundHandle \<Rightarrow> float \<Rightarrow> mixer \<Rightarrow> mixer" where
  "set_sound_pan handle p m =
    (case handle_to_index m handle of
       None \<Rightarrow> m
     | Some idx \<Rightarrow> set_voice m idx ((playing_sounds m ! idx)\<lparr>pan := p\<rparr>))"

definition is_playing :: "PlayingSoundHandle \<Rightarrow> mixer \<Rightarrow> bool" where
  "is_playing handle m =
    (case handle_to_index m handle of
       None \<Rightarrow> False
     | Some idx \<Rightarrow> \<not> stopMode (playing_sounds m ! idx))"

definition get_sound_play_pos :: "PlayingSoundHandle \<Rightarrow> mixer \<Rightarrow> float" where
  "get_sound_play_pos handle m =
    (case handle_to_index m handle of
       None \<Rightarrow> 0
     | Some idx \<Rightarrow>
        (let s = playing_sounds m ! idx in
         case sound s of
           None \<Rightarrow> 0
         | Some a \<Rightarrow>
            if stopMode s \<or> waitingStart s then 0
            else pos s / real_of_int (frequency (pcm m a))))"

definition set_sound_play_pos :: "PlayingSoundHandle \<Rightarrow> float \<Rightarrow> mixer \<Rightarrow> mixer" where
  "set_sound_play_pos handle pos_seconds m =
    (case handle_to_index m handle of
       None \<Rightarrow> m
     | Some idx \<Rightarrow>
        (let s = playing_sounds m ! idx in
         case sound s of
           None \<Rightarrow> m
         | Some a \<Rightarrow>
            if stopMode s then m
            else
              let p = real_of_int \<lfloor>real_of_int (frequency (pcm m a)) * pos_seconds\<rfloor> in
              set_voice m idx (s\<lparr>pos := clamp p (startPos s) (stopPos s)\<rparr>)))"

definition stop_sound :: "PlayingSoundHandle \<Rightarrow> mixer \<Rightarrow> mixer" where
  "stop_sound handle m =
    (case handle_to_index m handle of
       None \<Rightarrow> m
     | Some idx \<Rightarrow>
        (let s = playing_sounds m ! idx in
         if sound s = None \<or> stopMode s then m
         else set_voice m idx (setStopMode (pcm m) s)))"

definition stop_all_sounds :: "mixer \<Rightarrow> mixer" where
  "stop_all_sounds m =
    m\<lparr>playing_sounds :=
        map (\<lambda>s. if \<not> isEmpty s then setStopMode (pcm m) s else s) (playing_sounds m)\<rparr>"

subsection \<open>Allocating a voice and playing a sound\<close>

text \<open>
  \<^verbatim>\<open>allocate_playing_sound\<close>: the first empty slot among \<open>1 .. 127\<close>, its version
  advanced; \<open>None\<close> stands for the result \<open>-1\<close>.
\<close>

definition allocate_playing_sound :: "mixer \<Rightarrow> nat option \<times> mixer" where
  "allocate_playing_sound m =
    (case find (\<lambda>i. isEmpty (playing_sounds m ! i)) [1..<MAX_PLAYING_SOUNDS] of
       None \<Rightarrow> (None, m)
     | Some i \<Rightarrow>
        (Some i, set_voice m i
           ((playing_sounds m ! i)\<lparr>version := version (playing_sounds m ! i) + 128\<rparr>)))"

text \<open>
  \<^verbatim>\<open>play_sound_internal\<close>. The asset is given by its address \<open>a\<close>. The slot is
  allocated before the length of the asset is looked at, as in the source.
\<close>

definition play_sound_internal ::
  "nat \<Rightarrow> float \<Rightarrow> float \<Rightarrow> float \<Rightarrow> float \<Rightarrow> float \<Rightarrow> bool \<Rightarrow> float \<Rightarrow> mixer
    \<Rightarrow> PlayingSoundHandle \<times> mixer" where
  "play_sound_internal a volume0 pitch0 pan0 start_time end_time loop0 defer_time_sec m =
    (case allocate_playing_sound m of
       (None, m1) \<Rightarrow> (PlayingSoundHandle_new, m1)
     | (Some idx, m1) \<Rightarrow>
        if samples (pcm m a) \<le> 2 then (PlayingSoundHandle_new, m1)
        else
          let pcs = pcm m a;
              s = playing_sounds m1 ! idx;
              pitch1 = clamp pitch0 (1 / 100000) 1000;
              pan1 = clamp pan0 (- 1) 1;
              volume1 = clamp volume0 0 100000;
              start = clamp (real_of_int (trunc (start_time * real_of_int (frequency pcs))))
                        0 (real (samples pcs) - 1);
              stop = clamp (real_of_int (trunc (end_time * real_of_int (frequency pcs))))
                        start (real (samples pcs) - 1);
              pos1 = (if defer_time_sec < 0
                      then min (real_of_int (trunc (- defer_time_sec * real_of_int (frequency pcs)))) stop
                      else start);
              s1 = s\<lparr>channels := PcmSound.channels pcs,
                     sound := Some a,
                     volume := volume1,
                     pitch := pitch1,
                     pan := pan1,
                     volumeL := master_volume m1 * volume1 * min (1 + pan1) 1,
                     volumeR := master_volume m1 * volume1 * min (1 - pan1) 1,
                     pos := pos1,
                     startPos := start,
                     stopPos := stop,
                     loop := loop0,
                     stopMode := False,
                     timeToStart := max defer_time_sec 0,
                     waitingStart := (max defer_time_sec 0 \<noteq> 0)\<rparr>
          in (word_of_nat idx OR version s1, set_voice m1 idx s1))"

subsection \<open>Creating and rewriting assets\<close>

text \<open>
  \<^verbatim>\<open>create_sound\<close>. \<^verbatim>\<open>memcpy\<close> copies \<open>samples + 4\<close> floats out of an array of
  \<open>samples\<close> floats: \<open>beyond\<close> gives the four floats it reads behind the array.
\<close>

definition create_sound :: "int \<Rightarrow> float list \<Rightarrow> (nat \<Rightarrow> float) \<Rightarrow> PcmSound" where
  "create_sound freq xs beyond =
    (if freq < 1 \<or> length xs = 0 then PcmSound_new
     else
       let d = xs @ map beyond [0..<4] in
       \<lparr> data = Some (d[length xs := d ! 0]), frequency = freq, samples = length xs,
         PcmSound.channels = 1 \<rparr>)"

text \<open>An array of \<^verbatim>\<open>float2\<close> as it lies in memory.\<close>

definition interleave :: "(float \<times> float) list \<Rightarrow> float list" where
  "interleave xs = concat (map (\<lambda>(l, r). [l, r]) xs)"

definition create_sound_stereo ::
  "int \<Rightarrow> (float \<times> float) list \<Rightarrow> (nat \<Rightarrow> float) \<Rightarrow> PcmSound" where
  "create_sound_stereo freq xs beyond =
    (if freq < 1 \<or> length xs = 0 then PcmSound_new
     else
       let d = interleave xs @ map beyond [0..<8];
           d1 = d[length xs * 2 := d ! 0];
           d2 = d1[length xs * 2 + 1 := d1 ! 1]
       in \<lparr> data = Some d2, frequency = freq, samples = length xs,
            PcmSound.channels = 2 \<rparr>)"

text \<open>
  \<^verbatim>\<open>create_sound_from_file\<close>. The path check and the decoders are outside the file;
  they are parameters: \<open>path_valid\<close> is \<^verbatim>\<open>fs::is_path_string_valid\<close>, and a decoder
  returns the interleaved floats, the channel count, the sample rate and the frame count,
  or \<open>None\<close> for a null pointer. \<open>fresh\<close> is the content of the newly allocated block,
  of which only the decoded frames are overwritten.
\<close>

type_synonym decoded = "float list \<times> nat \<times> int \<times> nat"

definition to_lower :: "char \<Rightarrow> char" where
  "to_lower c =
    (let n = (of_char c :: nat) in if 65 \<le> n \<and> n \<le> 90 then char_of (n + 32) else c)"

text \<open>\<^verbatim>\<open>strrchr(file_name, '.')\<close>: the text from the last dot on.\<close>

fun strrchr_dot :: "string \<Rightarrow> string option" where
  "strrchr_dot [] = None"
| "strrchr_dot (c # cs) =
    (case strrchr_dot cs of
       Some p \<Rightarrow> Some p
     | None \<Rightarrow> if c = CHR ''.'' then Some (c # cs) else None)"

definition stricmp_eq :: "string \<Rightarrow> string \<Rightarrow> bool" where
  "stricmp_eq p q = (map to_lower p = map to_lower q)"

text \<open>\<^verbatim>\<open>!p[4]\<close>: the string ends at its fifth character.\<close>

definition ends_at_4 :: "string \<Rightarrow> bool" where
  "ends_at_4 p = (length p = 4)"

text \<open>The second half of \<^verbatim>\<open>create_sound_from_file\<close>, from the check of the channel
  count on.\<close>

definition sound_of_decoded :: "decoded \<Rightarrow> (nat \<Rightarrow> float) \<Rightarrow> PcmSound" where
  "sound_of_decoded dec fresh =
    (case dec of (pSampleData, chans, sampleRate, totalPCMFrameCount) \<Rightarrow>
       if chans \<noteq> 1 \<and> chans \<noteq> 2 then PcmSound_new
       else
         let n = totalPCMFrameCount;
             d0 = map fresh [0..<chans * (n + 4)];
             d = take (chans * n) pSampleData @ drop (chans * n) d0
         in if chans = 2 then
              let d1 = d[n * 2 := d ! 0];
                  d2 = d1[n * 2 + 1 := d1 ! 1]
              in \<lparr> data = Some d2, frequency = sampleRate, samples = n,
                   PcmSound.channels = chans \<rparr>
            else
              \<lparr> data = Some (d[n := d ! 0]), frequency = sampleRate, samples = n,
                PcmSound.channels = chans \<rparr>)"

definition create_sound_from_file ::
  "string \<Rightarrow> (string \<Rightarrow> bool) \<Rightarrow> (string \<Rightarrow> decoded option) \<Rightarrow> (string \<Rightarrow> decoded option)
    \<Rightarrow> (nat \<Rightarrow> float) \<Rightarrow> PcmSound" where
  "create_sound_from_file file_name path_valid drwav drmp3 fresh =
    (if file_name = [] then PcmSound_new
     else if \<not> path_valid file_name then PcmSound_new
     else
       let p = strrchr_dot file_name;
           r = (if p \<noteq> None \<and> stricmp_eq (the p) ''.wav'' \<and> ends_at_4 (the p)
                  then Some (drwav file_name)
                else if p \<noteq> None \<and> stricmp_eq (the p) ''.mp3'' \<and> ends_at_4 (the p)
                  then Some (drmp3 file_name)
                else if p \<noteq> None \<and> stricmp_eq (the p) ''.flac'' \<and> ends_at_4 (the p)
                  then Some (drwav file_name)
                else None)
       in case r of
            None \<Rightarrow> PcmSound_new
          | Some None \<Rightarrow> PcmSound_new
          | Some (Some dec) \<Rightarrow> sound_of_decoded dec fresh)"

text \<open>\<^verbatim>\<open>memcpy(dst, src, k floats)\<close>.\<close>

definition memcpy :: "float list \<Rightarrow> float list \<Rightarrow> nat \<Rightarrow> float list" where
  "memcpy dst src k = take k src @ drop k dst"

definition set_sound_data :: "PcmSound \<Rightarrow> float list \<Rightarrow> PcmSound" where
  "set_sound_data pcs in_data =
    (case data pcs of
       None \<Rightarrow> pcs
     | Some d \<Rightarrow>
        let count = min (samples pcs) (length in_data) in
        if count = 0 then pcs
        else if PcmSound.channels pcs = 1 then
          let d1 = memcpy d in_data count in
          pcs\<lparr>data := Some (d1[samples pcs := d1 ! 0])\<rparr>
        else if PcmSound.channels pcs = 2 then
          let d1 = fold (\<lambda>i blk. blk[i * 2 := in_data ! i, i * 2 + 1 := in_data ! i]) [0..<count] d;
              d2 = d1[samples pcs * 2 := d1 ! 0];
              d3 = d2[samples pcs * 2 + 1 := d2 ! 1]
          in pcs\<lparr>data := Some d3\<rparr>
        else pcs)"

definition set_sound_data_stereo :: "PcmSound \<Rightarrow> (float \<times> float) list \<Rightarrow> PcmSound" where
  "set_sound_data_stereo pcs in_data =
    (case data pcs of
       None \<Rightarrow> pcs
     | Some d \<Rightarrow>
        let count = min (samples pcs) (length in_data) in
        if count = 0 then pcs
        else if PcmSound.channels pcs = 1 then
          let ptr = interleave in_data;
              d1 = fold (\<lambda>i blk. blk[i := (ptr ! (i * 2) + ptr ! (i * 2 + 1)) * (1 / 2)]) [0..<count] d
          in pcs\<lparr>data := Some (d1[samples pcs := d1 ! 0])\<rparr>
        else if PcmSound.channels pcs = 2 then
          let d1 = memcpy d (interleave in_data) (2 * count);
              d2 = d1[samples pcs * 2 := d1 ! 0];
              d3 = d2[samples pcs * 2 + 1 := d2 ! 1]
          in pcs\<lparr>data := Some d3\<rparr>
        else pcs)"

subsection \<open>The mix routine\<close>

text \<open>
  The gain smoothing of one channel, written out four times in \<^verbatim>\<open>mixTo\<close>:
  \<^verbatim>\<open>if (volumeL != wishVolumeL) { if (fabsf(volumeL - wishVolumeL) <= ONE_DIV_512)
  volumeL = wishVolumeL; else if (volumeL < wishVolumeL) volumeL += ONE_DIV_512;
  else volumeL -= ONE_DIV_512; }\<close>
\<close>

definition smooth_volume :: "float \<Rightarrow> float \<Rightarrow> float" where
  "smooth_volume v wish =
    (if v \<noteq> wish then
       (if \<bar>v - wish\<bar> \<le> ONE_DIV_512 then wish
        else if v < wish then v + ONE_DIV_512
        else v - ONE_DIV_512)
     else v)"

text \<open>
  The stop-fade of one channel, also written out four times:
  \<^verbatim>\<open>if (fabsf(volumeL) <= ONE_DIV_512) volumeL = 0.0f;
  else { volumeL += volumeTrendL; volumeL *= 0.997f; }\<close>
\<close>

definition fade_volume :: "float \<Rightarrow> float \<Rightarrow> float" where
  "fade_volume v trend = (if \<bar>v\<bar> \<le> ONE_DIV_512 then 0 else (v + trend) * (997 / 1000))"

text \<open>\<^verbatim>\<open>mix[0] += l; mix[1] += r;\<close> with \<open>mix\<close> at float \<open>k\<close> of the buffer.\<close>

definition mix_add :: "float list \<Rightarrow> nat \<Rightarrow> float \<Rightarrow> float \<Rightarrow> float list" where
  "mix_add buf k l r = (let b1 = buf[k := buf ! k + l] in b1[k + 1 := b1 ! (k + 1) + r])"

text \<open>The values \<^verbatim>\<open>mixTo\<close> computes once, before its loops.\<close>

record mix_locals =
  sndData :: "float list"
  wishVolumeL :: float
  wishVolumeR :: float
  advance :: double
  inv_frequency :: double

text \<open>The end of the playing branch: \<^verbatim>\<open>pos += advance\<close> and the test against
  \<^verbatim>\<open>stopPos\<close>.\<close>

definition advance_pos :: "(nat \<Rightarrow> PcmSound) \<Rightarrow> mix_locals \<Rightarrow> PlayingSound \<Rightarrow> PlayingSound" where
  "advance_pos h c s =
    (let s1 = s\<lparr>pos := pos s + advance c\<rparr> in
     if pos s1 \<ge> stopPos s1 then
       (if loop s1 then s1\<lparr>pos := startPos s1\<rparr>
        else setStopMode h (s1\<lparr>pos := stopPos s1\<rparr>))
     else s1)"

text \<open>The branch \<^verbatim>\<open>if (waitingStart)\<close> of the sample loops.\<close>

definition wait_sample :: "mix_locals \<Rightarrow> PlayingSound \<Rightarrow> PlayingSound" where
  "wait_sample c s =
    (let s1 = s\<lparr>timeToStart := timeToStart s - inv_frequency c\<rparr> in
     if timeToStart s1 \<le> 0 then s1\<lparr>waitingStart := False, pos := startPos s1\<rparr> else s1)"

text \<open>The branch \<^verbatim>\<open>else // stopMode\<close>, up to the test for silence.\<close>

definition fade_sample :: "PlayingSound \<Rightarrow> PlayingSound" where
  "fade_sample s =
    s\<lparr>volumeL := fade_volume (volumeL s) (volumeTrendL s),
      volumeR := fade_volume (volumeR s) (volumeTrendR s)\<rparr>"

text \<open>One round of the fast loops (mono and stereo).\<close>

definition fast_mono :: "mix_locals \<Rightarrow> nat \<Rightarrow> PlayingSound \<times> float list \<Rightarrow> PlayingSound \<times> float list" where
  "fast_mono c k = (\<lambda>(s, mix).
    let ip = to_unsigned (pos s);
        t = pos s - real ip;
        v = lerp (sndData c ! ip) (sndData c ! (ip + 1)) t
    in (s\<lparr>pos := pos s + advance c\<rparr>, mix_add mix k (v * volumeL s) (v * volumeR s)))"

definition fast_stereo :: "mix_locals \<Rightarrow> nat \<Rightarrow> PlayingSound \<times> float list \<Rightarrow> PlayingSound \<times> float list" where
  "fast_stereo c k = (\<lambda>(s, mix).
    let ip = to_unsigned (pos s);
        t = pos s - real ip;
        vl = lerp (sndData c ! (ip * 2)) (sndData c ! (ip * 2 + 2)) t;
        vr = lerp (sndData c ! (ip * 2 + 1)) (sndData c ! (ip * 2 + 2 + 1)) t
    in (s\<lparr>pos := pos s + advance c\<rparr>, mix_add mix k (vl * volumeL s) (vr * volumeR s)))"

text \<open>One round of the general mono loop.\<close>

definition mono_sample ::
  "(nat \<Rightarrow> PcmSound) \<Rightarrow> mix_locals \<Rightarrow> nat \<Rightarrow> PlayingSound \<times> float list \<Rightarrow> PlayingSound \<times> float list" where
  "mono_sample h c k = (\<lambda>(s, mix).
    if waitingStart s then (wait_sample c s, mix)
    else if \<not> stopMode s then
      let ip = to_unsigned (pos s);
          t = pos s - real ip;
          v = lerp (sndData c ! ip) (sndData c ! (ip + 1)) t;
          mix1 = mix_add mix k (v * volumeL s) (v * volumeR s);
          s1 = s\<lparr>volumeL := smooth_volume (volumeL s) (wishVolumeL c),
                 volumeR := smooth_volume (volumeR s) (wishVolumeR c)\<rparr>
      in (advance_pos h c s1, mix1)
    else
      let s1 = fade_sample s;
          s2 = (if volumeR s1 = 0 \<and> volumeL s1 = 0 then s1\<lparr>stopMode := False\<rparr> else s1)
      in (s2, mix_add mix k (volumeL s2) (volumeR s2)))"

text \<open>One round of the general stereo loop; the flag tells that the loop was left by
  \<^verbatim>\<open>break\<close>.\<close>

definition stereo_sample ::
  "(nat \<Rightarrow> PcmSound) \<Rightarrow> mix_locals \<Rightarrow> nat \<Rightarrow> PlayingSound \<times> float list
    \<Rightarrow> bool \<times> PlayingSound \<times> float list" where
  "stereo_sample h c k = (\<lambda>(s, mix).
    if waitingStart s then (False, wait_sample c s, mix)
    else if \<not> stopMode s then
      let ip = to_unsigned (pos s);
          t = pos s - real ip;
          vl = lerp (sndData c ! (ip * 2)) (sndData c ! (ip * 2 + 2)) t;
          vr = lerp (sndData c ! (ip * 2 + 1)) (sndData c ! (ip * 2 + 2 + 1)) t;
          mix1 = mix_add mix k (vl * volumeL s) (vr * volumeR s);
          s1 = s\<lparr>volumeL := smooth_volume (volumeL s) (wishVolumeL c),
                 volumeR := smooth_volume (volumeR s) (wishVolumeR c)\<rparr>
      in (False, advance_pos h c s1, mix1)
    else
      let s1 = fade_sample s in
      if volumeR s1 = 0 \<and> volumeL s1 = 0 then (True, s1\<lparr>stopMode := False\<rparr>, mix)
      else (False, s1, mix_add mix k (volumeL s1) (volumeR s1)))"

text \<open>\<^verbatim>\<open>for (int i = 0; i < count; i++, mix += 2)\<close>: \<open>n\<close> rounds are left, \<open>mix\<close>
  points at float \<open>k\<close>.\<close>

fun mix_loop ::
  "(nat \<Rightarrow> PlayingSound \<times> float list \<Rightarrow> PlayingSound \<times> float list) \<Rightarrow> nat \<Rightarrow> nat
    \<Rightarrow> PlayingSound \<times> float list \<Rightarrow> PlayingSound \<times> float list" where
  "mix_loop body k 0 st = st"
| "mix_loop body k (Suc n) st = mix_loop body (k + 2) n (body k st)"

fun mix_loop_break ::
  "(nat \<Rightarrow> PlayingSound \<times> float list \<Rightarrow> bool \<times> PlayingSound \<times> float list) \<Rightarrow> nat \<Rightarrow> nat
    \<Rightarrow> PlayingSound \<times> float list \<Rightarrow> PlayingSound \<times> float list" where
  "mix_loop_break body k 0 st = st"
| "mix_loop_break body k (Suc n) st =
    (case body k st of
       (True, st1) \<Rightarrow> st1
     | (False, st1) \<Rightarrow> mix_loop_break body (k + 2) n st1)"

text \<open>
  \<^verbatim>\<open>PlayingSound::mixTo\<close>. \<open>mv\<close> is the global \<^verbatim>\<open>master_volume\<close>, \<open>k\<close> the place
  of \<^verbatim>\<open>mix\<close> in the output buffer, counted in floats. The locals
  \<^verbatim>\<open>wishVolumeL\<close>, \<^verbatim>\<open>wishVolumeR\<close>, \<^verbatim>\<open>sndData\<close> and \<^verbatim>\<open>advance\<close> come first.
\<close>

definition mixTo_locals ::
  "(nat \<Rightarrow> PcmSound) \<Rightarrow> float \<Rightarrow> PlayingSound \<Rightarrow> float list \<Rightarrow> double \<Rightarrow> mix_locals" where
  "mixTo_locals h mv s sd inv_freq =
    \<lparr> sndData = sd,
      wishVolumeL = mv * volume s * min (1 + pan s) 1,
      wishVolumeR = mv * volume s * min (1 - pan s) 1,
      advance = (case sound s of
                   Some a \<Rightarrow> real_of_int (frequency (h a)) * inv_freq * pitch s
                 | None \<Rightarrow> 1),
      inv_frequency = inv_freq \<rparr>"

definition mixTo ::
  "(nat \<Rightarrow> PcmSound) \<Rightarrow> float \<Rightarrow> PlayingSound \<Rightarrow> float list \<Rightarrow> nat \<Rightarrow> nat \<Rightarrow> int \<Rightarrow> double
    \<Rightarrow> double \<Rightarrow> PlayingSound \<times> float list" where
  "mixTo h mv s mix k count freq inv_freq buffer_time =
    (case (case sound s of None \<Rightarrow> None | Some a \<Rightarrow> data (h a)) of
       None \<Rightarrow> (s, mix)
     | Some sd \<Rightarrow>
        let c = mixTo_locals h mv s sd inv_freq in
        if \<not> stopMode s \<and> \<not> waitingStart s \<and> sound s \<noteq> None \<and> volumeL s > 0 \<and> volumeR s > 0
           \<and> wishVolumeL c = volumeL s \<and> wishVolumeR c = volumeR s
           \<and> pos s + advance c * real count < stopPos s
        then
          (if channels s = 1 then mix_loop (fast_mono c) k count (s, mix)
           else mix_loop (fast_stereo c) k count (s, mix))
        else if waitingStart s \<and> timeToStart s > buffer_time then
          (s\<lparr>timeToStart := timeToStart s - buffer_time\<rparr>, mix)
        else if channels s = 1 then mix_loop (mono_sample h c) k count (s, mix)
        else mix_loop_break (stereo_sample h c) k count (s, mix))"

text \<open>\<^verbatim>\<open>for (auto && s : playing_sounds) if (!s.isEmpty()) s.mixTo(...)\<close>\<close>

fun mix_voices ::
  "(nat \<Rightarrow> PcmSound) \<Rightarrow> float \<Rightarrow> nat \<Rightarrow> nat \<Rightarrow> int \<Rightarrow> double \<Rightarrow> double
    \<Rightarrow> PlayingSound list \<Rightarrow> float list \<Rightarrow> PlayingSound list \<times> float list" where
  "mix_voices h mv k count freq inv_freq buffer_time [] mix = ([], mix)"
| "mix_voices h mv k count freq inv_freq buffer_time (s # ss) mix =
    (let (s1, mix1) = (if \<not> isEmpty s then mixTo h mv s mix k count freq inv_freq buffer_time
                       else (s, mix));
         (ss1, mix2) = mix_voices h mv k count freq inv_freq buffer_time ss mix1
     in (s1 # ss1, mix2))"

text \<open>
  The loop of \<^verbatim>\<open>fill_buffer_cb\<close>: \<open>n\<close> is the variable \<^verbatim>\<open>samples\<close>, \<open>k\<close> the place of
  \<^verbatim>\<open>out_buf\<close> in the buffer the callback was given.
\<close>

function fill_loop ::
  "int \<Rightarrow> nat \<Rightarrow> double \<Rightarrow> int \<Rightarrow> int \<Rightarrow> nat \<Rightarrow> mixer \<times> float list \<Rightarrow> mixer \<times> float list" where
  "fill_loop freq chans invFrequency step n k (m, buf) =
    (if n > 0 \<and> step > 0 then
       let count = nat (min n step);
           (ps1, buf1) = mix_voices (pcm m) (master_volume m) k count freq invFrequency
                           (real count * invFrequency) (playing_sounds m) buf;
           n1 = n - step;
           k1 = k + nat step * chans;
           m1 = m\<lparr>playing_sounds := ps1,
                  total_samples_played := total_samples_played m + min n1 step,
                  total_time_played := total_time_played m + real_of_int (min n1 step) * invFrequency\<rparr>
       in fill_loop freq chans invFrequency step n1 k1 (m1, buf1)
     else (m, buf))"
  by pat_completeness auto
termination
  by (relation "measure (\<lambda>(freq, chans, invFrequency, step, n, k, st). nat n)") auto

declare fill_loop.simps [simp del]

text \<open>
  \<^verbatim>\<open>fill_buffer_cb\<close>: the callback clears the \<open>samples * channels\<close> floats it was
  given, mixes into them and returns them with the new state.
\<close>

definition fill_buffer_cb :: "int \<Rightarrow> nat \<Rightarrow> int \<Rightarrow> mixer \<Rightarrow> mixer \<times> float list" where
  "fill_buffer_cb freq chans n m =
    fill_loop freq chans (1 / real_of_int freq) 256 n 0 (m, replicate (nat n * chans) 0)"

subsection \<open>Notions used in the statements\<close>

text \<open>
  The voice table has its 128 slots, and every version is a multiple of 128: the table
  starts with versions 0 and a version only ever changes by \<open>+= MAX_PLAYING_SOUNDS\<close>.
\<close>

definition table_ok :: "mixer \<Rightarrow> bool" where
  "table_ok m = (length (playing_sounds m) = MAX_PLAYING_SOUNDS \<and>
     list_all (\<lambda>s. version s AND PLAYING_SOUNDS_MASK = 0) (playing_sounds m))"

text \<open>None of the slots \<open>1 .. 127\<close> is empty.\<close>

definition no_free_slot :: "mixer \<Rightarrow> bool" where
  "no_free_slot m = list_all (\<lambda>i. \<not> isEmpty (playing_sounds m ! i)) [1..<MAX_PLAYING_SOUNDS]"

text \<open>
  The audio backend calls \<^verbatim>\<open>fill_buffer_cb\<close> again and again, each time for some
  number of frames; the outputs follow one another.
\<close>

fun callbacks :: "int \<Rightarrow> nat \<Rightarrow> int list \<Rightarrow> mixer \<Rightarrow> mixer \<times> float list" where
  "callbacks freq chans [] m = (m, [])"
| "callbacks freq chans (n # ns) m =
    (let (m1, out1) = fill_buffer_cb freq chans n m;
         (m2, out2) = callbacks freq chans ns m1
     in (m2, out1 @ out2))"

text \<open>
  The block of an asset has the size \<^verbatim>\<open>newData\<close> was asked for, and the asset is mono or
  stereo.
\<close>

definition block_ok :: "PcmSound \<Rightarrow> bool" where
  "block_ok s = (case data s of
      None \<Rightarrow> False
    | Some d \<Rightarrow> length d = getDataSize s \<and> (PcmSound.channels s = 1 \<or> PcmSound.channels s = 2))"

text \<open>
  The guard frame: \<open>data[samples] = data[0]\<close> for a mono asset, \<open>data[2 * samples] = data[0]\<close>
  and \<open>data[2 * samples + 1] = data[1]\<close> for a stereo asset.
\<close>

definition guard_frame :: "PcmSound \<Rightarrow> bool" where
  "guard_frame s = (block_ok s \<and>
     (if PcmSound.channels s = 1 then getData_at s (samples s) = getData_at s 0
      else getData_at s (samples s * 2) = getData_at s 0 \<and>
           getData_at s (samples s * 2 + 1) = getData_at s 1))"

text \<open>A decoder returns as many floats as the channel count and the frame count it reports
  say.\<close>

definition decoder_ok :: "(string \<Rightarrow> decoded option) \<Rightarrow> bool" where
  "decoder_ok dec = (\<forall>file_name. case dec file_name of
      None \<Rightarrow> True
    | Some (pSampleData, chans, sampleRate, n) \<Rightarrow> length pSampleData = chans * n)"

text \<open>Two decoders used as concrete inputs: one that decodes every file to two stereo frames,
  one that fails on every file.\<close>

definition wav2 :: "string \<Rightarrow> decoded option" where
  "wav2 file_name = Some ([1, 2, 3, 4], 2, 44100, 2)"

definition no_decoder :: "string \<Rightarrow> decoded option" where
  "no_decoder file_name = None"


text \<open>A five-frame mono asset at the output rate, and the mixer that holds it at every
  address, used as concrete inputs.\<close>

definition asset5 :: PcmSound where
  "asset5 = create_sound 48000 [1 / 2, 1 / 2, 1 / 2, 1 / 2, 1 / 2] (\<lambda>_. 0)"

definition mixer5 :: mixer where
  "mixer5 = initialize (\<lambda>_. asset5)"

text \<open>The same mixer after \<^verbatim>\<open>play_sound_1\<close> has played the asset (with one second for
  the end time).\<close>

definition playing5 :: mixer where
  "playing5 = snd (play_sound_internal 0 1 1 0 0 1 False 0 mixer5)"

text \<open>What \<^verbatim>\<open>fill_buffer_cb\<close> adds to \<^verbatim>\<open>total_samples_played\<close>: the sum of
  \<open>min (samples - step) step\<close> over the rounds of its loop.\<close>

function counted :: "int \<Rightarrow> int" where
  "counted n = (if n > 0 then min (n - 256) 256 + counted (n - 256) else 0)"
  by pat_completeness auto
termination
  by (relation "measure nat") auto

declare counted.simps [simp del]

text \<open>One round of playing the asset at address 0 with the default arguments and stopping
  it at once.\<close>

definition play_stop :: "mixer \<Rightarrow> mixer" where
  "play_stop m = (case play_sound_internal 0 1 1 0 0 1 False 0 m of (h, m1) \<Rightarrow> stop_sound h m1)"

text \<open>After \<open>k\<close> rounds of play and stop on \<open>mixer5\<close>: slots \<open>1..k\<close> are in stop-fade with
  gains 1/2, the other slots are untouched.\<close>

definition stopped_upto :: "nat \<Rightarrow> mixer \<Rightarrow> bool" where
  "stopped_upto k m =
    (table_ok m \<and> pcm m = (\<lambda>_. asset5) \<and> master_volume m = 1 \<and>
     list_all (\<lambda>i. sound (playing_sounds m ! i) = None \<and> stopMode (playing_sounds m ! i) \<and>
                    volumeL (playing_sounds m ! i) = 1 / 2 \<and> volumeR (playing_sounds m ! i) = 1 / 2)
       [1..<Suc k] \<and>
     list_all (\<lambda>i. playing_sounds m ! i = PlayingSound_new) (0 # [Suc k..<MAX_PLAYING_SOUNDS]))"






section \<open>Properties\<close>

subsection \<open>Handles as bit patterns\<close>

lemma mask127: "(127::32 word) = mask 7" by (simp add: mask_eq_exp_minus_1)

lemma unat_idx_lt: "unat ((ps::32 word) AND PLAYING_SOUNDS_MASK) < 128"
proof -
  have "unat (take_bit 7 ps) < 2 ^ 7"
    unfolding unsigned_take_bit_eq by (rule take_bit_nat_less_exp)
  then show ?thesis by (simp add: PLAYING_SOUNDS_MASK_def mask127 take_bit_eq_mask)
qed

lemma aligned_add: 
  assumes "(v::32 word) AND PLAYING_SOUNDS_MASK = 0" shows "(v + 128) AND PLAYING_SOUNDS_MASK = 0"
proof -
  have "unat (take_bit 7 v) = 0" using assms by (simp add: PLAYING_SOUNDS_MASK_def mask127 take_bit_eq_mask)
  then have "take_bit 7 (unat v) = 0" by (simp only: unsigned_take_bit_eq)
  then have v: "unat v mod 128 = 0" by (simp add: take_bit_eq_mod)
  have "unat (v + 128) = (unat v + 128) mod 2 ^ 32"
    by (simp add: unat_word_ariths)
  then have "unat (v + 128) mod 128 = ((unat v + 128) mod 2 ^ 32) mod 128" by simp
  also have "\<dots> = (unat v + 128) mod 128" by (rule mod_mod_cancel) simp
  also have "\<dots> = 0" using v by simp
  finally have "take_bit 7 (unat (v + 128)) = 0" by (simp add: take_bit_eq_mod)
  then have "unat (take_bit 7 (v + 128)) = 0" by (simp only: unsigned_take_bit_eq)
  then have "take_bit 7 (v + 128) = 0" by (simp only: unat_eq_0)
  then show ?thesis by (simp add: PLAYING_SOUNDS_MASK_def mask127 take_bit_eq_mask)
qed

lemma of_nat_low: 
  assumes "i < 128" shows "take_bit 7 (word_of_nat i :: 32 word) = word_of_nat i"
proof -
  have "take_bit 7 i = i" using assms by (simp add: take_bit_nat_eq_self_iff)
  then show ?thesis by (metis take_bit_of_nat)
qed

lemma handle_idx: 
  assumes "v AND PLAYING_SOUNDS_MASK = 0" "i < 128"
  shows "unat (((word_of_nat i :: 32 word) OR v) AND PLAYING_SOUNDS_MASK) = i"
proof -
  have v: "take_bit 7 v = 0" using assms by (simp add: PLAYING_SOUNDS_MASK_def mask127 take_bit_eq_mask)
  have "take_bit 7 ((word_of_nat i :: 32 word) OR v) = word_of_nat i"
    by (simp add: v of_nat_low assms)
  moreover have "unat (word_of_nat i :: 32 word) = i"
    using assms by (simp add: unsigned_of_nat take_bit_nat_eq_self_iff)
  ultimately show ?thesis by (simp add: PLAYING_SOUNDS_MASK_def mask127 take_bit_eq_mask)
qed

lemma handle_ver: 
  assumes "v AND PLAYING_SOUNDS_MASK = 0" "i < 128"
  shows "(((word_of_nat i :: 32 word) OR v) AND NOT PLAYING_SOUNDS_MASK) = v"
proof -
  have v: "take_bit 7 v = 0" using assms by (simp add: PLAYING_SOUNDS_MASK_def mask127 take_bit_eq_mask)
  have w: "take_bit 7 ((word_of_nat i :: 32 word) OR v) = word_of_nat i"
    by (simp add: v of_nat_low assms)
  show ?thesis 
   unfolding PLAYING_SOUNDS_MASK_def mask127
   apply (rule bit_word_eqI)
   using v w of_nat_low[OF assms(2)]
   apply (auto simp: bit_simps bit_eq_iff)
   done
qed


subsection \<open>The initial table\<close>

lemma initialize_nth:
  "i < MAX_PLAYING_SOUNDS \<Longrightarrow> playing_sounds (initialize h) ! i = PlayingSound_new"
  by (simp add: initialize_def)

lemma initialize_length: "length (playing_sounds (initialize h)) = MAX_PLAYING_SOUNDS"
  by (simp add: initialize_def)

lemma initialize_table_ok: "table_ok (initialize h)"
  by (simp add: table_ok_def initialize_def list_all_iff PlayingSound_new_def)

lemma find_upt_first: "i < j \<Longrightarrow> P i \<Longrightarrow> find P [i..<j] = Some i"
  by (simp add: upt_conv_Cons)

lemma find_upt_skip: "i < j \<Longrightarrow> \<not> P i \<Longrightarrow> find P [i..<j] = find P [Suc i..<j]"
  by (simp add: upt_conv_Cons)

lemma PlayingSound_new_isEmpty: "isEmpty PlayingSound_new"
  by (simp add: isEmpty_def PlayingSound_new_def)

lemma initialize_find:
  "find (\<lambda>i. isEmpty (playing_sounds (initialize h) ! i)) [1..<MAX_PLAYING_SOUNDS] = Some 1"
  by (rule find_upt_first) (simp_all add: MAX_PLAYING_SOUNDS_def initialize_def PlayingSound_new_isEmpty)

subsection \<open>Stopping\<close>

lemma setStopMode_idem:
  "sound s = None \<or> stopMode s \<Longrightarrow> setStopMode h s = s\<lparr>waitingStart := False\<rparr>"
  by (auto simp: setStopMode_def split: option.splits)

lemma setStopMode_version:
  "sound s \<noteq> None \<Longrightarrow> \<not> stopMode s \<Longrightarrow> version (setStopMode h s) = version s + 128"
  by (auto simp: setStopMode_def Let_def split: option.splits)

lemma setStopMode_sound: "sound (setStopMode h s) = None \<or> stopMode (setStopMode h s)"
  by (auto simp: setStopMode_def Let_def split: option.splits)

lemma invalid_after_bump:
  assumes len: "length (playing_sounds m) = MAX_PLAYING_SOUNDS"
    and v: "is_handle_valid m h"
    and m': "playing_sounds m' = (playing_sounds m)[unat (h AND PLAYING_SOUNDS_MASK) := s']"
    and s': "version s' = version (playing_sounds m ! unat (h AND PLAYING_SOUNDS_MASK)) + 128"
  shows "\<not> is_handle_valid m' h"
proof -
  let ?i = "unat (h AND PLAYING_SOUNDS_MASK)"
  have i: "?i < length (playing_sounds m)" using unat_idx_lt[of h] len by (simp add: MAX_PLAYING_SOUNDS_def)
  have "version (playing_sounds m ! ?i) = h AND NOT PLAYING_SOUNDS_MASK"
    using v by (simp add: is_handle_valid_def Let_def)
  moreover have "version (playing_sounds m' ! ?i) = version (playing_sounds m ! ?i) + 128"
    using i by (simp add: m' s')
  ultimately show ?thesis by (simp add: is_handle_valid_def Let_def)
qed

lemma stale_noops:
  assumes "\<not> is_handle_valid m h"
  shows "set_sound_pitch h x m = m" "set_sound_volume h x m = m" "set_sound_pan h x m = m"
    "set_sound_play_pos h x m = m" "stop_sound h m = m" "get_sound_play_pos h m = 0"
    "\<not> is_playing h m"
  using assms by (simp_all add: set_sound_pitch_def set_sound_volume_def set_sound_pan_def
    set_sound_play_pos_def stop_sound_def get_sound_play_pos_def is_playing_def handle_to_index_def)


subsection \<open>Playing\<close>

lemma zero_handle_invalid: "\<not> is_handle_valid m 0"
  by (simp add: is_handle_valid_def PLAYING_SOUNDS_MASK_def)

lemma no_free_slot_find:
  "no_free_slot m \<longleftrightarrow> find (\<lambda>i. isEmpty (playing_sounds m ! i)) [1..<MAX_PLAYING_SOUNDS] = None"
  by (auto simp add: no_free_slot_def find_None_iff list_all_iff)

lemma find_slot_range:
  assumes "find (\<lambda>i. isEmpty (playing_sounds m ! i)) [1..<MAX_PLAYING_SOUNDS] = Some idx"
  shows "0 < idx \<and> idx < 128 \<and> isEmpty (playing_sounds m ! idx)"
proof -
  from assms have "idx \<in> set [1..<MAX_PLAYING_SOUNDS] \<and> isEmpty (playing_sounds m ! idx)"
    by (auto simp: find_Some_iff)
  then show ?thesis by (simp add: MAX_PLAYING_SOUNDS_def)
qed

lemma play_fail_full:
  assumes "no_free_slot m"
  shows "play_sound_internal a vol pit pn st en lp df m = (PlayingSoundHandle_new, m)"
  using assms by (simp add: play_sound_internal_def allocate_playing_sound_def no_free_slot_find)

lemma play_fail_short:
  assumes "find (\<lambda>i. isEmpty (playing_sounds m ! i)) [1..<MAX_PLAYING_SOUNDS] = Some idx"
    and "samples (pcm m a) \<le> 2"
  shows "play_sound_internal a vol pit pn st en lp df m =
     (PlayingSoundHandle_new,
      set_voice m idx ((playing_sounds m ! idx)\<lparr>version := version (playing_sounds m ! idx) + 128\<rparr>))"
  using assms by (simp add: play_sound_internal_def allocate_playing_sound_def)

lemma play_success:
  assumes len: "length (playing_sounds m) = MAX_PLAYING_SOUNDS"
    and f: "find (\<lambda>i. isEmpty (playing_sounds m ! i)) [1..<MAX_PLAYING_SOUNDS] = Some idx"
    and "\<not> samples (pcm m a) \<le> 2"
    and r: "play_sound_internal a vol pit pn st en lp df m = (hnd, m')"
  shows "hnd = word_of_nat idx OR (version (playing_sounds m ! idx) + 128)"
    and "pcm m' = pcm m" and "master_volume m' = master_volume m"
    and "length (playing_sounds m') = MAX_PLAYING_SOUNDS"
    and "playing_sounds m' ! idx =
      (let pcs = pcm m a;
           start = clamp (real_of_int (trunc (st * real_of_int (frequency pcs)))) 0 (real (samples pcs) - 1);
           stop = clamp (real_of_int (trunc (en * real_of_int (frequency pcs)))) start (real (samples pcs) - 1)
       in (playing_sounds m ! idx)\<lparr>
             version := version (playing_sounds m ! idx) + 128,
             channels := PcmSound.channels pcs,
             sound := Some a,
             volume := clamp vol 0 100000,
             pitch := clamp pit (1 / 100000) 1000,
             pan := clamp pn (- 1) 1,
             volumeL := master_volume m * clamp vol 0 100000 * min (1 + clamp pn (- 1) 1) 1,
             volumeR := master_volume m * clamp vol 0 100000 * min (1 - clamp pn (- 1) 1) 1,
             pos := (if df < 0 then min (real_of_int (trunc (- df * real_of_int (frequency pcs)))) stop
                     else start),
             startPos := start,
             stopPos := stop,
             loop := lp,
             stopMode := False,
             timeToStart := max df 0,
             waitingStart := (max df 0 \<noteq> 0)\<rparr>)"
proof -
  have i: "idx < length (playing_sounds m)" using find_slot_range[OF f] len by (simp add: MAX_PLAYING_SOUNDS_def)
  show "hnd = word_of_nat idx OR (version (playing_sounds m ! idx) + 128)"
    using assms i by (simp add: play_sound_internal_def allocate_playing_sound_def set_voice_def Let_def)
  show "pcm m' = pcm m"
    using assms i by (auto simp add: play_sound_internal_def allocate_playing_sound_def set_voice_def Let_def)
  show "master_volume m' = master_volume m"
    using assms i by (auto simp add: play_sound_internal_def allocate_playing_sound_def set_voice_def Let_def)
  show "length (playing_sounds m') = MAX_PLAYING_SOUNDS"
    using assms i by (auto simp add: play_sound_internal_def allocate_playing_sound_def set_voice_def Let_def)
  show "playing_sounds m' ! idx = (let pcs = pcm m a;
           start = clamp (real_of_int (trunc (st * real_of_int (frequency pcs)))) 0 (real (samples pcs) - 1);
           stop = clamp (real_of_int (trunc (en * real_of_int (frequency pcs)))) start (real (samples pcs) - 1)
       in (playing_sounds m ! idx)\<lparr>
             version := version (playing_sounds m ! idx) + 128,
             channels := PcmSound.channels pcs,
             sound := Some a,
             volume := clamp vol 0 100000,
             pitch := clamp pit (1 / 100000) 1000,
             pan := clamp pn (- 1) 1,
             volumeL := master_volume m * clamp vol 0 100000 * min (1 + clamp pn (- 1) 1) 1,
             volumeR := master_volume m * clamp vol 0 100000 * min (1 - clamp pn (- 1) 1) 1,
             pos := (if df < 0 then min (real_of_int (trunc (- df * real_of_int (frequency pcs)))) stop
                     else start),
             startPos := start,
             stopPos := stop,
             loop := lp,
             stopMode := False,
             timeToStart := max df 0,
             waitingStart := (max df 0 \<noteq> 0)\<rparr>)"
    using assms i by (auto simp add: play_sound_internal_def allocate_playing_sound_def set_voice_def Let_def)
qed

subsection \<open>The concrete states\<close>

lemma asset5_fields:
  "samples asset5 = 5" "frequency asset5 = 48000" "PcmSound.channels asset5 = 1"
  "data asset5 = Some [1 / 2, 1 / 2, 1 / 2, 1 / 2, 1 / 2, 1 / 2, 0, 0, 0]"
  by (simp_all add: asset5_def create_sound_def Let_def upt_conv_Cons)

lemma trunc_of_int [simp]: "trunc (real_of_int i) = i"
  by (simp add: trunc_def)

lemma trunc_numeral [simp]: "trunc (numeral n) = numeral n" "trunc 0 = 0" "trunc 1 = 1"
  by (simp_all add: trunc_def)

lemma initialize_fields:
  "pcm (initialize h) = h" "master_volume (initialize h) = 1"
  "total_samples_played (initialize h) = 0" "total_time_played (initialize h) = 0"
  by (simp_all add: initialize_def)

lemma one_lt_MAX: "Suc 0 < MAX_PLAYING_SOUNDS" by (simp add: MAX_PLAYING_SOUNDS_def)

lemma mixer5_length: "length (playing_sounds mixer5) = MAX_PLAYING_SOUNDS"
  unfolding mixer5_def by (rule initialize_length)

lemma mixer5_find:
  "find (\<lambda>i. isEmpty (playing_sounds mixer5 ! i)) [1..<MAX_PLAYING_SOUNDS] = Some 1"
  unfolding mixer5_def by (rule initialize_find)

lemma mixer5_long: "\<not> samples (pcm mixer5 0) \<le> 2"
  by (simp add: mixer5_def initialize_fields asset5_fields)

lemma mixer5_fields:
  "pcm mixer5 = (\<lambda>_. asset5)" "master_volume mixer5 = 1"
  "playing_sounds mixer5 ! Suc 0 = PlayingSound_new" "playing_sounds mixer5 ! 1 = PlayingSound_new"
  by (simp_all add: mixer5_def initialize_fields initialize_nth one_lt_MAX)

lemmas play5 = play_success[OF mixer5_length mixer5_find mixer5_long]

lemma play5_handle: "fst (play_sound_internal 0 1 1 0 0 1 False 0 mixer5) = 129"
proof -
  obtain hnd m' where r: "play_sound_internal 0 1 1 0 0 1 False 0 mixer5 = (hnd, m')"
    by (cases "play_sound_internal 0 1 1 0 0 1 False 0 mixer5")
  have "hnd = word_of_nat 1 OR (version (playing_sounds mixer5 ! 1) + 128)"
    by (rule play5(1)[OF r])
  then show ?thesis by (simp add: r mixer5_fields PlayingSound_new_def)
qed

lemma playing5_voice:
  "playing_sounds playing5 ! Suc 0 =
    \<lparr> sound = Some 0, pos = 0, startPos = 0, stopPos = 4, pitch = 1,
     volume = 1, pan = 0, volumeL = 1, volumeR = 1, volumeTrendL = 0, volumeTrendR = 0,
     timeToStart = 0, channels = 1, version = 128, loop = False, stopMode = False,
     waitingStart = False \<rparr>"
proof -
  obtain hnd m' where r: "play_sound_internal 0 1 1 0 0 1 False 0 mixer5 = (hnd, m')"
    by (cases "play_sound_internal 0 1 1 0 0 1 False 0 mixer5")
  have "playing_sounds m' ! 1 = (let pcs = pcm mixer5 0;
           start = clamp (real_of_int (trunc (0 * real_of_int (frequency pcs)))) 0 (real (samples pcs) - 1);
           stop = clamp (real_of_int (trunc (1 * real_of_int (frequency pcs)))) start (real (samples pcs) - 1)
       in (playing_sounds mixer5 ! 1)\<lparr>
             version := version (playing_sounds mixer5 ! 1) + 128,
             channels := PcmSound.channels pcs,
             sound := Some 0,
             volume := clamp 1 0 100000,
             pitch := clamp 1 (1 / 100000) 1000,
             pan := clamp 0 (- 1) 1,
             volumeL := master_volume mixer5 * clamp 1 0 100000 * min (1 + clamp 0 (- 1) 1) 1,
             volumeR := master_volume mixer5 * clamp 1 0 100000 * min (1 - clamp 0 (- 1) 1) 1,
             pos := (if (0::real) < 0 then min (real_of_int (trunc (- 0 * real_of_int (frequency pcs)))) stop
                     else start),
             startPos := start,
             stopPos := stop,
             loop := False,
             stopMode := False,
             timeToStart := max 0 0,
             waitingStart := (max (0::real) 0 \<noteq> 0)\<rparr>)"
    by (rule play5(5)[OF r])
  then show ?thesis
    by (simp add: playing5_def r mixer5_fields PlayingSound_new_def
        asset5_fields clamp_def Let_def)
qed

lemma playing5_length: "length (playing_sounds playing5) = MAX_PLAYING_SOUNDS"
proof -
  obtain hnd m' where r: "play_sound_internal 0 1 1 0 0 1 False 0 mixer5 = (hnd, m')"
    by (cases "play_sound_internal 0 1 1 0 0 1 False 0 mixer5")
  have "length (playing_sounds m') = MAX_PLAYING_SOUNDS"
    by (rule play5(4)[OF r])
  then show ?thesis by (simp add: playing5_def r)
qed

lemma playing5_pcm: "pcm playing5 = (\<lambda>_. asset5)"
proof -
  obtain hnd m' where r: "play_sound_internal 0 1 1 0 0 1 False 0 mixer5 = (hnd, m')"
    by (cases "play_sound_internal 0 1 1 0 0 1 False 0 mixer5")
  have "pcm m' = pcm mixer5"
    by (rule play5(2)[OF r])
  then show ?thesis by (simp add: playing5_def r mixer5_fields)
qed

lemma idx129: "unat ((129::32 word) AND PLAYING_SOUNDS_MASK) = Suc 0" 
  by (simp add: PLAYING_SOUNDS_MASK_def)
lemma ver129: "(129::32 word) AND NOT PLAYING_SOUNDS_MASK = 128" 
  by (simp add: PLAYING_SOUNDS_MASK_def)

lemma playing5_valid: "is_handle_valid playing5 129"
  by (simp add: is_handle_valid_def idx129 ver129 playing5_voice)


subsection \<open>Repeated stop requests\<close>

text \<open>
  Claim C10. \<^verbatim>\<open>setStopMode\<close> on a voice that is already in stop-fade, or whose asset
  pointer is already null, only clears \<open>waitingStart\<close>: the version is not advanced
  again, the gains and the fade trends are not seeded again, \<open>stopMode\<close> keeps its value.
\<close>

theorem setStopMode_twice: 
  assumes "stopMode s \<or> sound s = None"
  shows "setStopMode h s = s\<lparr>waitingStart := False\<rparr> \<and>
     version (setStopMode h s) = version s \<and>
     volumeL (setStopMode h s) = volumeL s \<and> volumeR (setStopMode h s) = volumeR s \<and>
     volumeTrendL (setStopMode h s) = volumeTrendL s \<and>
     volumeTrendR (setStopMode h s) = volumeTrendR s \<and>
     stopMode (setStopMode h s) = stopMode s \<and>
     sound (setStopMode h s) = sound s \<and>
     \<not> waitingStart (setStopMode h s)"
  using assms by (auto simp: setStopMode_idem)

theorem setStopMode_twice_witness:
  "stopMode (setStopMode (pcm playing5) (playing_sounds playing5 ! 1)) \<and>
   setStopMode (pcm playing5) (setStopMode (pcm playing5) (playing_sounds playing5 ! 1))
     = setStopMode (pcm playing5) (playing_sounds playing5 ! 1) \<and>
   version (setStopMode (pcm playing5) (setStopMode (pcm playing5) (playing_sounds playing5 ! 1))) = 256"
proof -
  have s: "stopMode (setStopMode (pcm playing5) (playing_sounds playing5 ! 1))"
    by (simp add: setStopMode_def playing5_voice Let_def)
  have w: "\<not> waitingStart (setStopMode (pcm playing5) (playing_sounds playing5 ! 1))"
    by (simp add: setStopMode_def playing5_voice Let_def)
  have v: "version (setStopMode (pcm playing5) (playing_sounds playing5 ! 1)) = 256"
    by (simp add: setStopMode_def playing5_voice Let_def)
  show ?thesis
    using setStopMode_twice[of "setStopMode (pcm playing5) (playing_sounds playing5 ! 1)" "pcm playing5"] s w v
    by simp
qed


subsection \<open>Stale handles\<close>

text \<open>
  Claim C1, as the code has it. \<^verbatim>\<open>stop_sound\<close> looks at the voice before it stops it:
  \<^verbatim>\<open>if (!playing_sounds[idx].sound || playing_sounds[idx].stopMode) return;\<close>. For a
  valid handle whose voice holds an asset and is not in stop-fade, \<^verbatim>\<open>stop_sound\<close>
  advances the version of the voice by 128, the handle is no longer valid, every control
  operation on it returns the state unchanged, \<^verbatim>\<open>get_sound_play_pos\<close> returns 0 and
  \<^verbatim>\<open>is_playing\<close> returns false.
\<close>

theorem stop_sound_stale:
  assumes len: "length (playing_sounds m) = MAX_PLAYING_SOUNDS"
    and v: "is_handle_valid m h"
    and snd: "sound (playing_sounds m ! unat (h AND PLAYING_SOUNDS_MASK)) \<noteq> None"
    and ns: "\<not> stopMode (playing_sounds m ! unat (h AND PLAYING_SOUNDS_MASK))"
  shows "version (playing_sounds (stop_sound h m) ! unat (h AND PLAYING_SOUNDS_MASK))
           = version (playing_sounds m ! unat (h AND PLAYING_SOUNDS_MASK)) + 128 \<and>
         \<not> is_handle_valid (stop_sound h m) h \<and>
         set_sound_pitch h x (stop_sound h m) = stop_sound h m \<and>
         set_sound_volume h x (stop_sound h m) = stop_sound h m \<and>
         set_sound_pan h x (stop_sound h m) = stop_sound h m \<and>
         set_sound_play_pos h x (stop_sound h m) = stop_sound h m \<and>
         stop_sound h (stop_sound h m) = stop_sound h m \<and>
         get_sound_play_pos h (stop_sound h m) = 0 \<and>
         \<not> is_playing h (stop_sound h m)"
proof -
  let ?i = "unat (h AND PLAYING_SOUNDS_MASK)"
  let ?s = "playing_sounds m ! ?i"
  have i: "?i < length (playing_sounds m)" using unat_idx_lt[of h] len by (simp add: MAX_PLAYING_SOUNDS_def)
  have st: "stop_sound h m = set_voice m ?i (setStopMode (pcm m) ?s)"
    using v snd ns by (auto simp: stop_sound_def handle_to_index_def Let_def)
  have ver: "version (playing_sounds (stop_sound h m) ! ?i) = version ?s + 128"
    using i snd ns by (simp add: st set_voice_def setStopMode_version)
  have inv: "\<not> is_handle_valid (stop_sound h m) h"
    by (rule invalid_after_bump[OF len v _ setStopMode_version[OF snd ns]]) (simp add: st set_voice_def)
  show ?thesis using ver inv stale_noops[OF inv] by simp
qed

theorem stop_sound_stale_witness:
  "is_handle_valid playing5 129 \<and>
   version (playing_sounds (stop_sound 129 playing5) ! 1) = 256 \<and>
   \<not> is_handle_valid (stop_sound 129 playing5) 129 \<and>
   set_sound_volume 129 0 (stop_sound 129 playing5) = stop_sound 129 playing5 \<and>
   \<not> is_playing 129 (stop_sound 129 playing5)"
  using stop_sound_stale[of playing5 129 0]
  by (simp add: playing5_length playing5_valid idx129 playing5_voice)


text \<open>
  Without the condition on the voice the statement fails. In the table that
  \<^verbatim>\<open>initialize\<close> leaves behind every version is 0, so the handle 5 passes
  \<^verbatim>\<open>is_handle_valid\<close>; its slot is empty, \<^verbatim>\<open>stop_sound\<close> returns at its guard,
  the version stays 0, and the handle is still valid and reported as playing.
\<close>

lemma idx5: "unat ((5::32 word) AND PLAYING_SOUNDS_MASK) = 5" by (simp add: PLAYING_SOUNDS_MASK_def)
lemma ver5: "(5::32 word) AND NOT PLAYING_SOUNDS_MASK = 0" by (simp add: PLAYING_SOUNDS_MASK_def)

lemma five_lt: "5 < MAX_PLAYING_SOUNDS" by (simp add: MAX_PLAYING_SOUNDS_def)

lemma valid5: "is_handle_valid (initialize h) 5"
  by (simp add: is_handle_valid_def idx5 ver5 initialize_nth five_lt) (simp add: PlayingSound_new_def)
lemma stop5: "stop_sound 5 (initialize h) = initialize h"
  by (simp add: stop_sound_def handle_to_index_def valid5 idx5 initialize_nth five_lt) (simp add: PlayingSound_new_def)

theorem stop_sound_counterexample:
  "is_handle_valid mixer5 5 \<and>
   version (playing_sounds (stop_sound 5 mixer5) ! unat ((5::32 word) AND PLAYING_SOUNDS_MASK))
    \<noteq> version (playing_sounds mixer5 ! unat ((5::32 word) AND PLAYING_SOUNDS_MASK)) + 128 \<and>
   is_handle_valid (stop_sound 5 mixer5) 5 \<and>
   is_playing 5 (stop_sound 5 mixer5)"
  unfolding mixer5_def
  by (simp add: stop5 valid5 is_playing_def handle_to_index_def idx5 initialize_nth five_lt)
     (simp add: PlayingSound_new_def)

subsection \<open>What play returns\<close>

lemma play_table_ok:
  assumes ok: "table_ok m" and r: "play_sound_internal a vol pit pn st en lp df m = (hnd, m')"
  shows "table_ok m'"
proof (cases "find (\<lambda>i. isEmpty (playing_sounds m ! i)) [1..<MAX_PLAYING_SOUNDS]")
  case None
  then have "no_free_slot m" by (simp add: no_free_slot_find)
  from play_fail_full[OF this] r ok show ?thesis by simp
next
  case (Some idx)
  have len: "length (playing_sounds m) = MAX_PLAYING_SOUNDS" using ok by (simp add: table_ok_def)
  have i: "idx < length (playing_sounds m)" using find_slot_range[OF Some] len by (simp add: MAX_PLAYING_SOUNDS_def)
  have al: "\<And>s. s \<in> set (playing_sounds m) \<Longrightarrow> version s AND PLAYING_SOUNDS_MASK = 0"
    using ok by (simp add: table_ok_def list_all_iff)
  have al_i: "version (playing_sounds m ! idx) AND PLAYING_SOUNDS_MASK = 0"
    using al i by simp
  have upd: "\<And>s'. version s' AND PLAYING_SOUNDS_MASK = 0 \<Longrightarrow> table_ok (set_voice m idx s')"
    using ok by (auto simp: table_ok_def set_voice_def list_all_iff dest!: set_update_subset_insert[THEN subsetD])
  show ?thesis
  proof (cases "samples (pcm m a) \<le> 2")
    case True
    from play_fail_short[OF Some True] r
    have "m' = set_voice m idx ((playing_sounds m ! idx)\<lparr>version := version (playing_sounds m ! idx) + 128\<rparr>)"
      by simp
    then show ?thesis using upd aligned_add[OF al_i] by simp
  next
    case False
    note ps = play_success[OF len Some False r]
    have l': "length (playing_sounds m') = MAX_PLAYING_SOUNDS" by (rule ps(4))
    have "play_sound_internal a vol pit pn st en lp df m = (hnd, m')" by (rule r)
    then obtain s' where m': "m' = set_voice m idx s'" and v: "version s' = version (playing_sounds m ! idx) + 128"
      using Some False i
      by (auto simp: play_sound_internal_def allocate_playing_sound_def set_voice_def Let_def)
    show ?thesis unfolding m' by (rule upd) (simp add: v aligned_add[OF al_i])
  qed
qed

lemma play_handle_cases:
  assumes ok: "table_ok m" and r: "play_sound_internal a vol pit pn st en lp df m = (hnd, m')"
  shows "(no_free_slot m \<or> samples (pcm m a) \<le> 2 \<longrightarrow>
            hnd = PlayingSoundHandle_new \<and> handle_to_index m' hnd = None) \<and>
         (\<not> (no_free_slot m \<or> samples (pcm m a) \<le> 2) \<longrightarrow>
            handle_to_index m' hnd = fst (allocate_playing_sound m) \<and>
            (\<exists>idx. handle_to_index m' hnd = Some idx \<and> 0 < idx \<and> idx < MAX_PLAYING_SOUNDS \<and>
               isEmpty (playing_sounds m ! idx) \<and>
               sound (playing_sounds m' ! idx) = Some a))"
proof (cases "find (\<lambda>i. isEmpty (playing_sounds m ! i)) [1..<MAX_PLAYING_SOUNDS]")
  case None
  then have nf: "no_free_slot m" by (simp add: no_free_slot_find)
  from play_fail_full[OF this] r have "hnd = PlayingSoundHandle_new" by simp
  then show ?thesis using nf
    by (simp add: PlayingSoundHandle_new_def handle_to_index_def zero_handle_invalid)
next
  case (Some idx)
  then have nf: "\<not> no_free_slot m" by (simp add: no_free_slot_find)
  have len: "length (playing_sounds m) = MAX_PLAYING_SOUNDS" using ok by (simp add: table_ok_def)
  note rg = find_slot_range[OF Some]
  have i: "idx < length (playing_sounds m)" using rg len by (simp add: MAX_PLAYING_SOUNDS_def)
  have al_i: "version (playing_sounds m ! idx) AND PLAYING_SOUNDS_MASK = 0"
    using ok i by (simp add: table_ok_def list_all_iff)
  show ?thesis
  proof (cases "samples (pcm m a) \<le> 2")
    case True
    from play_fail_short[OF Some True] r have "hnd = PlayingSoundHandle_new" by simp
    then show ?thesis using True
      by (simp add: PlayingSoundHandle_new_def handle_to_index_def zero_handle_invalid)
  next
    case False
    note ps = play_success[OF len Some False r]
    let ?v = "version (playing_sounds m ! idx) + 128"
    have al': "?v AND PLAYING_SOUNDS_MASK = 0" by (rule aligned_add[OF al_i])
    have hi: "unat (hnd AND PLAYING_SOUNDS_MASK) = idx"
      unfolding ps(1) using al' rg by (simp add: handle_idx)
    have hv: "hnd AND NOT PLAYING_SOUNDS_MASK = ?v"
      unfolding ps(1) using al' rg by (simp add: handle_ver)
    have ver: "version (playing_sounds m' ! idx) = ?v" by (simp add: ps(5) Let_def)
    have snd: "sound (playing_sounds m' ! idx) = Some a" by (simp add: ps(5) Let_def)
    have valid: "is_handle_valid m' hnd"
      using rg by (simp add: is_handle_valid_def hi hv ver)
    have h2i: "handle_to_index m' hnd = Some idx"
      by (simp add: handle_to_index_def valid hi)
    have al: "fst (allocate_playing_sound m) = Some idx"
      using Some by (simp add: allocate_playing_sound_def)
    show ?thesis using nf False h2i al rg snd by (simp add: MAX_PLAYING_SOUNDS_def)
  qed
qed

lemma mixer5_table_ok: "table_ok mixer5"
  unfolding mixer5_def by (rule initialize_table_ok)



text \<open>
  Claim C9. On a table with 128 slots whose versions are multiples of 128,
  \<^verbatim>\<open>play_sound_internal\<close> returns the zero handle, which \<^verbatim>\<open>handle_to_index\<close> rejects,
  when none of the slots 1..127 is empty or the asset has at most two samples; in every
  other case the handle it returns resolves to the slot that \<^verbatim>\<open>allocate_playing_sound\<close>
  picked, a slot that was empty and now holds the asset.
\<close>

theorem play_sound_handle:
  assumes "table_ok m" and "play_sound_internal a vol pit pn st en lp df m = (hnd, m')"
  shows "(no_free_slot m \<or> samples (pcm m a) \<le> 2 \<longrightarrow>
            hnd = PlayingSoundHandle_new \<and> handle_to_index m' hnd = None) \<and>
         (\<not> (no_free_slot m \<or> samples (pcm m a) \<le> 2) \<longrightarrow>
            handle_to_index m' hnd = fst (allocate_playing_sound m) \<and>
            (\<exists>idx. handle_to_index m' hnd = Some idx \<and> 0 < idx \<and> idx < MAX_PLAYING_SOUNDS \<and>
               isEmpty (playing_sounds m ! idx) \<and>
               sound (playing_sounds m' ! idx) = Some a))"
  using assms by (rule play_handle_cases)

theorem play_sound_handle_witness:
  "handle_to_index playing5 (fst (play_sound_internal 0 1 1 0 0 1 False 0 mixer5)) = Some 1 \<and>
   sound (playing_sounds playing5 ! 1) = Some 0"
proof -
  have a: "\<not> (no_free_slot mixer5 \<or> samples (pcm mixer5 0) \<le> 2)"
    using mixer5_find mixer5_long by (simp add: no_free_slot_find)
  have b: "table_ok mixer5" unfolding mixer5_def by (rule initialize_table_ok)
  have c: "play_sound_internal 0 1 1 0 0 1 False 0 mixer5 =
      (fst (play_sound_internal 0 1 1 0 0 1 False 0 mixer5), playing5)"
    by (simp add: playing5_def)
  have d: "fst (allocate_playing_sound mixer5) = Some 1"
    using mixer5_find by (simp add: allocate_playing_sound_def)
  show ?thesis
    using play_sound_handle[OF b c] a d by (simp add: playing5_voice)
qed


subsection \<open>The voice a successful play creates\<close>










lemma smooth_volume_reaches:
  "\<bar>v - w\<bar> \<le> real n * ONE_DIV_512 \<Longrightarrow> ((\<lambda>x. smooth_volume x w) ^^ n) v = w"
proof (induction n arbitrary: v)
  case 0
  then show ?case by simp
next
  case (Suc n)
  have "\<bar>smooth_volume v w - w\<bar> \<le> real n * ONE_DIV_512"
    using Suc.prems by (auto simp: smooth_volume_def ONE_DIV_512_def algebra_simps abs_if split: if_splits)
  from Suc.IH[OF this] show ?case by (simp only: funpow_Suc_right o_apply)
qed








subsection \<open>The guard frame\<close>

lemma interleave_length [simp]: "length (interleave xs) = 2 * length xs"
  by (induction xs) (auto simp: interleave_def)

lemma guard_mono:
  assumes "length d = n + 4" 
  shows "guard_frame \<lparr> data = Some (d[n := d ! 0]), frequency = f, samples = n, PcmSound.channels = 1 \<rparr>"
  using assms by (cases "n = 0") (simp_all add: guard_frame_def block_ok_def getDataSize_def getData_at_def)

lemma guard_stereo:
  assumes "length d = 2 * (n + 4)" and "d1 = d[n * 2 := d ! 0]" and "d2 = d1[n * 2 + 1 := d1 ! 1]"
  shows "guard_frame \<lparr> data = Some d2, frequency = f, samples = n, PcmSound.channels = 2 \<rparr>"
proof (cases "n = 0")
  case True
  then show ?thesis using assms
    by (simp add: guard_frame_def block_ok_def getDataSize_def getData_at_def)
next
  case False
  then show ?thesis using assms
    by (simp add: guard_frame_def block_ok_def getDataSize_def getData_at_def nth_list_update)
qed

lemma create_sound_guard:
  assumes "isValid (create_sound f xs b)"
  shows "guard_frame (create_sound f xs b)"
proof -
  let ?d = "xs @ map b [0..<4]"
  from assms have c: "\<not> (f < 1 \<or> length xs = 0)"
    by (auto simp: create_sound_def isValid_def PcmSound_new_def split: if_splits)
  then have eq: "create_sound f xs b =
      \<lparr> data = Some (?d[length xs := ?d ! 0]), frequency = f, samples = length xs,
        PcmSound.channels = 1 \<rparr>"
    by (simp add: create_sound_def Let_def)
  show ?thesis unfolding eq by (rule guard_mono) simp
qed

lemma create_sound_stereo_guard:
  assumes "isValid (create_sound_stereo f ys b)"
  shows "guard_frame (create_sound_stereo f ys b)"
proof -
  let ?d = "interleave ys @ map b [0..<8]"
  let ?d1 = "?d[length ys * 2 := ?d ! 0]"
  from assms have c: "\<not> (f < 1 \<or> length ys = 0)"
    by (auto simp: create_sound_stereo_def isValid_def PcmSound_new_def split: if_splits)
  then have eq: "create_sound_stereo f ys b =
      \<lparr> data = Some (?d1[length ys * 2 + 1 := ?d1 ! 1]), frequency = f, samples = length ys,
        PcmSound.channels = 2 \<rparr>"
    by (simp add: create_sound_stereo_def Let_def)
  show ?thesis unfolding eq by (rule guard_stereo[OF _ refl refl]) simp
qed

lemma sound_of_decoded_guard:
  assumes "length xs = ch * n" and v: "isValid (sound_of_decoded (xs, ch, sr, n) fresh)"
  shows "guard_frame (sound_of_decoded (xs, ch, sr, n) fresh)"
proof -
  from v have c: "ch = 1 \<or> ch = 2"
    by (auto simp: sound_of_decoded_def isValid_def PcmSound_new_def split: if_splits)
  let ?d = "take (ch * n) xs @ drop (ch * n) (map fresh [0..<ch * (n + 4)])"
  show ?thesis
  proof (cases "ch = 2")
    case True
    let ?d1 = "?d[n * 2 := ?d ! 0]"
    have l: "length ?d = 2 * (n + 4)" using assms True by simp
    have eq: "sound_of_decoded (xs, ch, sr, n) fresh =
        \<lparr> data = Some (?d1[n * 2 + 1 := ?d1 ! 1]), frequency = sr, samples = n,
          PcmSound.channels = 2 \<rparr>"
      using True by (simp add: sound_of_decoded_def Let_def)
    show ?thesis unfolding eq by (rule guard_stereo[OF l refl refl])
  next
    case False
    then have ch: "ch = 1" using c by simp
    have l: "length ?d = n + 4" using assms ch by simp
    have eq: "sound_of_decoded (xs, ch, sr, n) fresh =
        \<lparr> data = Some (?d[n := ?d ! 0]), frequency = sr, samples = n, PcmSound.channels = 1 \<rparr>"
      using ch by (simp add: sound_of_decoded_def Let_def)
    show ?thesis unfolding eq by (rule guard_mono[OF l])
  qed
qed

lemma create_sound_from_file_cases:
  "create_sound_from_file fn pv drwav drmp3 fresh = PcmSound_new \<or>
   (\<exists>dec. drwav fn = Some dec \<and> create_sound_from_file fn pv drwav drmp3 fresh = sound_of_decoded dec fresh) \<or>
   (\<exists>dec. drmp3 fn = Some dec \<and> create_sound_from_file fn pv drwav drmp3 fresh = sound_of_decoded dec fresh)"
  by (auto simp: create_sound_from_file_def Let_def split: option.splits)

lemma decoder_okD:
  assumes "decoder_ok dec" "dec fn = Some (xs, ch, sr, n)" shows "length xs = ch * n"
proof -
  from assms(1) have "case dec fn of None \<Rightarrow> True | Some (x, c, r, k) \<Rightarrow> length x = c * k"
    unfolding decoder_ok_def by blast
  then show ?thesis by (simp add: assms(2))
qed

lemma create_sound_from_file_guard:
  assumes w: "decoder_ok drwav" and p: "decoder_ok drmp3"
    and v: "isValid (create_sound_from_file fn pv drwav drmp3 fresh)"
  shows "guard_frame (create_sound_from_file fn pv drwav drmp3 fresh)"
proof -
  have ne: "create_sound_from_file fn pv drwav drmp3 fresh \<noteq> PcmSound_new"
    using v by (auto simp: isValid_def PcmSound_new_def)
  have step: "guard_frame (create_sound_from_file fn pv drwav drmp3 fresh)"
    if ok: "decoder_ok dec0" and e: "dec0 fn = Some dec"
      and eq: "create_sound_from_file fn pv drwav drmp3 fresh = sound_of_decoded dec fresh"
    for dec0 dec
  proof -
    obtain xs ch sr n where d: "dec = (xs, ch, sr, n)" by (cases dec)
    have "dec0 fn = Some (xs, ch, sr, n)" using e d by simp
    then have "length xs = ch * n" by (rule decoder_okD[OF ok])
    from sound_of_decoded_guard[OF this] v show ?thesis by (simp add: eq d)
  qed
  from create_sound_from_file_cases[of fn pv drwav drmp3 fresh] ne
  show ?thesis using step[OF w] step[OF p] by blast
qed

lemma fold_update_length [simp]:
  "length (fold (\<lambda>i blk. blk[f i := g i blk]) is d) = length d"
  by (induction "is" arbitrary: d) auto

lemma fold_update2_length [simp]:
  "length (fold (\<lambda>i blk. blk[f i := g i, f' i := g' i]) is d) = length d"
  by (induction "is" arbitrary: d) auto

lemma set_sound_data_guard:
  assumes "guard_frame s \<or> (block_ok s \<and> 0 < min (samples s) (length in_data))"
  shows "guard_frame (set_sound_data s in_data)"
proof -
  from assms have b: "block_ok s" by (auto simp: guard_frame_def)
  then obtain d where d: "data s = Some d" and l: "length d = PcmSound.channels s * (samples s + 4)"
    and ch: "PcmSound.channels s = 1 \<or> PcmSound.channels s = 2"
    by (auto simp: block_ok_def getDataSize_def split: option.splits)
  let ?count = "min (samples s) (length in_data)"
  show ?thesis
  proof (cases "?count = 0")
    case True
    then have "set_sound_data s in_data = s" by (simp add: set_sound_data_def d Let_def)
    then show ?thesis using assms True by simp
  next
    case False
    then have n0: "samples s \<noteq> 0" by auto
    from False obtain k where k: "min (samples s) (length in_data) = Suc k"
      by (cases "min (samples s) (length in_data)") auto
    show ?thesis
    proof (cases "PcmSound.channels s = 1")
      case True
      let ?d1 = "memcpy d in_data ?count"
      have eq: "set_sound_data s in_data = s\<lparr>data := Some (?d1[samples s := ?d1 ! 0])\<rparr>"
        using True by (simp add: set_sound_data_def d Let_def k)
      have l1: "length ?d1 = samples s + 4" using l True by (simp add: memcpy_def)
      show ?thesis unfolding eq using l1 True n0
        by (simp add: guard_frame_def block_ok_def getDataSize_def getData_at_def)
    next
      case c: False
      then have c2: "PcmSound.channels s = 2" using ch by simp
      let ?d1 = "fold (\<lambda>i blk. blk[i * 2 := in_data ! i, i * 2 + 1 := in_data ! i]) [0..<?count] d"
      let ?d2 = "?d1[samples s * 2 := ?d1 ! 0]"
      have eq: "set_sound_data s in_data = s\<lparr>data := Some (?d2[samples s * 2 + 1 := ?d2 ! 1])\<rparr>"
        using c2 by (simp add: set_sound_data_def d Let_def k)
      have l1: "length ?d1 = 2 * (samples s + 4)" using l c2 by simp
      show ?thesis unfolding eq using l1 c2 n0
        by (simp add: guard_frame_def block_ok_def getDataSize_def getData_at_def nth_list_update)
    qed
  qed
qed

lemma set_sound_data_stereo_guard:
  assumes "guard_frame s \<or> (block_ok s \<and> 0 < min (samples s) (length in_data))"
  shows "guard_frame (set_sound_data_stereo s in_data)"
proof -
  from assms have b: "block_ok s" by (auto simp: guard_frame_def)
  then obtain d where d: "data s = Some d" and l: "length d = PcmSound.channels s * (samples s + 4)"
    and ch: "PcmSound.channels s = 1 \<or> PcmSound.channels s = 2"
    by (auto simp: block_ok_def getDataSize_def split: option.splits)
  let ?count = "min (samples s) (length in_data)"
  show ?thesis
  proof (cases "?count = 0")
    case True
    then have "set_sound_data_stereo s in_data = s" by (simp add: set_sound_data_stereo_def d Let_def)
    then show ?thesis using assms True by simp
  next
    case False
    then have n0: "samples s \<noteq> 0" by auto
    from False obtain k where k: "min (samples s) (length in_data) = Suc k"
      by (cases "min (samples s) (length in_data)") auto
    show ?thesis
    proof (cases "PcmSound.channels s = 1")
      case True
      let ?ptr = "interleave in_data"
      let ?d1 = "fold (\<lambda>i blk. blk[i := (?ptr ! (i * 2) + ?ptr ! (i * 2 + 1)) * (1 / 2)]) [0..<?count] d"
      have eq: "set_sound_data_stereo s in_data = s\<lparr>data := Some (?d1[samples s := ?d1 ! 0])\<rparr>"
        using True by (simp add: set_sound_data_stereo_def d Let_def k)
      have l1: "length ?d1 = samples s + 4" using l True by simp
      show ?thesis unfolding eq using l1 True n0
        by (simp add: guard_frame_def block_ok_def getDataSize_def getData_at_def)
    next
      case c: False
      then have c2: "PcmSound.channels s = 2" using ch by simp
      let ?d1 = "memcpy d (interleave in_data) (2 * ?count)"
      let ?d2 = "?d1[samples s * 2 := ?d1 ! 0]"
      have eq: "set_sound_data_stereo s in_data = s\<lparr>data := Some (?d2[samples s * 2 + 1 := ?d2 ! 1])\<rparr>"
        using c2 by (simp add: set_sound_data_stereo_def d Let_def k)
      have l1: "length ?d1 = 2 * (samples s + 4)" using l c2 by (simp add: memcpy_def)
      show ?thesis unfolding eq using l1 c2 n0
        by (simp add: guard_frame_def block_ok_def getDataSize_def getData_at_def nth_list_update)
    qed
  qed
qed


text \<open>
  Claim C5. Every asset that \<^verbatim>\<open>create_sound\<close>, \<^verbatim>\<open>create_sound_stereo\<close> or
  \<^verbatim>\<open>create_sound_from_file\<close> returns with a buffer has its first frame repeated behind
  the last one; \<^verbatim>\<open>set_sound_data\<close> and \<^verbatim>\<open>set_sound_data_stereo\<close> keep it so, and
  establish it whenever they copy at least one frame.
\<close>

theorem guard_frame_established:
  "(isValid (create_sound f xs b) \<longrightarrow> guard_frame (create_sound f xs b)) \<and>
   (isValid (create_sound_stereo f ys b) \<longrightarrow> guard_frame (create_sound_stereo f ys b)) \<and>
   (decoder_ok drwav \<and> decoder_ok drmp3 \<and> isValid (create_sound_from_file fn pv drwav drmp3 fresh)
      \<longrightarrow> guard_frame (create_sound_from_file fn pv drwav drmp3 fresh)) \<and>
   (guard_frame s \<or> (block_ok s \<and> 0 < min (samples s) (length in_data))
      \<longrightarrow> guard_frame (set_sound_data s in_data)) \<and>
   (guard_frame s \<or> (block_ok s \<and> 0 < min (samples s) (length in_data2))
      \<longrightarrow> guard_frame (set_sound_data_stereo s in_data2))"
  using create_sound_guard create_sound_stereo_guard create_sound_from_file_guard
    set_sound_data_guard set_sound_data_stereo_guard by blast

lemma asset5_valid: "isValid asset5"
  by (simp add: isValid_def asset5_def create_sound_def Let_def)

lemma stereo_valid: "isValid (create_sound_stereo 48000 [(1, 2), (3, 4), (5, 6)] (\<lambda>_. 0))"
  by (simp add: isValid_def create_sound_stereo_def Let_def)

lemma wav2_ok: "decoder_ok wav2" "decoder_ok no_decoder"
  by (simp_all add: decoder_ok_def wav2_def no_decoder_def)

lemma strrchr_a_wav: "strrchr_dot ''a.wav'' = Some ''.wav''"
  by simp

lemma to_lower_W: "to_lower (CHR ''W'') = CHR ''w''"
  by code_simp

lemma file_valid: "isValid (create_sound_from_file ''a.wav'' (\<lambda>_. True) wav2 no_decoder (\<lambda>_. 0))"
  by (simp add: create_sound_from_file_def strrchr_a_wav stricmp_eq_def to_lower_def ends_at_4_def
      wav2_def sound_of_decoded_def isValid_def Let_def)

theorem guard_frame_established_witness:
  "guard_frame asset5 \<and>
   guard_frame (create_sound_stereo 48000 [(1, 2), (3, 4), (5, 6)] (\<lambda>_. 0)) \<and>
   guard_frame (create_sound_from_file ''a.wav'' (\<lambda>_. True) wav2 no_decoder (\<lambda>_. 0)) \<and>
   guard_frame (set_sound_data asset5 [1, 2, 3]) \<and>
   guard_frame (set_sound_data_stereo asset5 [(1, 2), (3, 4)])"
proof -
  have a: "isValid (create_sound 48000 [1 / 2, 1 / 2, 1 / 2, 1 / 2, 1 / 2] (\<lambda>_. 0))"
    using asset5_valid by (simp add: asset5_def)
  note t = guard_frame_established[of 48000 "[1 / 2, 1 / 2, 1 / 2, 1 / 2, 1 / 2]" "\<lambda>_. 0"
      "[(1, 2), (3, 4), (5, 6)]" wav2 no_decoder "''a.wav''" "\<lambda>_. True" "\<lambda>_. 0" asset5
      "[1, 2, 3]" "[(1, 2), (3, 4)]"]
  have g: "guard_frame asset5" using t a by (simp add: asset5_def)
  show ?thesis using t g stereo_valid wav2_ok file_valid by (simp add: asset5_def)
qed

subsection \<open>Voices without an asset in the mix routine\<close>

lemma mixTo_null: "sound s = None \<Longrightarrow> mixTo h mv s mix k count freq ifr bt = (s, mix)"
  by (simp add: mixTo_def)

lemma mix_voices_null:
  "list_all (\<lambda>s. sound s = None) ps \<Longrightarrow> mix_voices h mv k count freq ifr bt ps mix = (ps, mix)"
  by (induction ps arbitrary: mix) (simp_all add: mixTo_null)

lemma fill_loop_null:
  assumes "list_all (\<lambda>s. sound s = None) (playing_sounds m)"
  shows "fill_loop freq chans ifr 256 n k (m, buf) =
         (m\<lparr>total_samples_played := total_samples_played m + counted n,
            total_time_played := total_time_played m + real_of_int (counted n) * ifr\<rparr>, buf)"
  using assms
proof (induction n arbitrary: m k rule: counted.induct)
  case (1 n)
  show ?case
  proof (cases "n > 0")
    case True
    let ?m1 = "m\<lparr>playing_sounds := playing_sounds m,
                  total_samples_played := total_samples_played m + min (n - 256) 256,
                  total_time_played := total_time_played m + real_of_int (min (n - 256) 256) * ifr\<rparr>"
    have "fill_loop freq chans ifr 256 n k (m, buf) =
          fill_loop freq chans ifr 256 (n - 256) (k + nat 256 * chans) (?m1, buf)"
      using True 1(2) by (subst fill_loop.simps) (simp add: mix_voices_null Let_def)
    also have "\<dots> = (?m1\<lparr>total_samples_played := total_samples_played ?m1 + counted (n - 256),
            total_time_played := total_time_played ?m1 + real_of_int (counted (n - 256)) * ifr\<rparr>, buf)"
      by (rule 1(1)[OF True]) (use 1(2) in simp)
    finally show ?thesis using True by (simp add: counted.simps[of n] algebra_simps)
  next
    case False
    then show ?thesis by (simp add: fill_loop.simps[of _ _ _ _ n] counted.simps[of n])
  qed
qed

lemma counted_100: "counted 100 = - 156"
  by (subst counted.simps, subst counted.simps) simp
lemma counted_256: "counted 256 = 0"
  by (subst counted.simps, subst counted.simps) simp
lemma counted_480: "counted 480 = 192"
  by (subst counted.simps, subst counted.simps, subst counted.simps) simp

lemma mixer5_null: "list_all (\<lambda>s. sound s = None) (playing_sounds mixer5)"
  by (simp add: mixer5_def initialize_def list_all_iff PlayingSound_new_def)

lemma fill_buffer_cb_null:
  assumes "list_all (\<lambda>s. sound s = None) (playing_sounds m)"
  shows "playing_sounds (fst (fill_buffer_cb freq chans n m)) = playing_sounds m"
  by (simp add: fill_buffer_cb_def fill_loop_null[OF assms])

lemma callbacks_null:
  assumes "list_all (\<lambda>s. sound s = None) (playing_sounds m)"
  shows "playing_sounds (fst (callbacks freq chans ns m)) = playing_sounds m"
  using assms
proof (induction ns arbitrary: m)
  case Nil
  then show ?case by simp
next
  case (Cons n ns)
  obtain m1 out1 where f: "fill_buffer_cb freq chans n m = (m1, out1)"
    by (cases "fill_buffer_cb freq chans n m")
  have p1: "playing_sounds m1 = playing_sounds m"
    using fill_buffer_cb_null[OF Cons.prems, of freq chans n] by (simp add: f)
  obtain m2 out2 where c: "callbacks freq chans ns m1 = (m2, out2)"
    by (cases "callbacks freq chans ns m1")
  have "playing_sounds (fst (callbacks freq chans ns m1)) = playing_sounds m1"
    using Cons.IH[of m1] Cons.prems by (simp add: p1)
  then show ?case by (simp add: f p1 c)
qed


subsection \<open>The transport counters\<close>

text \<open>
  Claim C3 does not hold of the code. \<^verbatim>\<open>fill_buffer_cb\<close> adds \<open>min (samples, step)\<close> to
  the counters after \<^verbatim>\<open>samples -= step\<close>: a callback of 100 frames takes 156 from
  \<^verbatim>\<open>total_samples_played\<close> and the matching time from \<^verbatim>\<open>total_time_played\<close>, one of
  256 frames adds nothing, one of 480 frames adds 192.
\<close>

theorem fill_buffer_miscounts:
  "total_samples_played (fst (fill_buffer_cb 48000 2 100 mixer5)) = total_samples_played mixer5 - 156 \<and>
   total_time_played (fst (fill_buffer_cb 48000 2 100 mixer5)) = total_time_played mixer5 - 156 / 48000 \<and>
   total_samples_played (fst (fill_buffer_cb 48000 2 256 mixer5)) = total_samples_played mixer5 \<and>
   total_samples_played (fst (fill_buffer_cb 48000 2 480 mixer5)) = total_samples_played mixer5 + 192"
  unfolding fill_buffer_cb_def fill_loop_null[OF mixer5_null] counted_100 counted_256 counted_480
  by simp


subsection \<open>Slots of stopped voices\<close>

lemma find_upt_at:
  assumes "a \<le> j" "j < b" "P j" "\<And>i. a \<le> i \<Longrightarrow> i < j \<Longrightarrow> \<not> P i"
  shows "find P [a..<b] = Some j"
  using assms
proof (induction "j - a" arbitrary: a)
  case 0
  then have "a = j" by simp
  then show ?case using 0 by (simp add: find_upt_first)
next
  case (Suc n)
  then have "a < j" by simp
  then have "\<not> P a" using Suc.prems by simp
  moreover have "a < b" using \<open>a < j\<close> Suc.prems by simp
  ultimately have "find P [a..<b] = find P [Suc a..<b]" by (simp add: find_upt_skip)
  also have "\<dots> = Some j"
    by (rule Suc.hyps(1)) (use Suc \<open>a < j\<close> in auto)
  finally show ?case .
qed

lemma stop_sound_table_ok:
  assumes "table_ok m" shows "table_ok (stop_sound h m)"
proof (cases "handle_to_index m h")
  case None
  then show ?thesis using assms by (simp add: stop_sound_def)
next
  case (Some idx)
  then have idx: "idx = unat (h AND PLAYING_SOUNDS_MASK)"
    by (auto simp: handle_to_index_def split: if_splits)
  have len: "length (playing_sounds m) = MAX_PLAYING_SOUNDS" using assms by (simp add: table_ok_def)
  have i: "idx < length (playing_sounds m)"
    unfolding idx using unat_idx_lt[of h] len by (simp add: MAX_PLAYING_SOUNDS_def)
  have al: "version (playing_sounds m ! idx) AND PLAYING_SOUNDS_MASK = 0"
    using assms i by (simp add: table_ok_def list_all_iff)
  have v: "version (setStopMode (pcm m) (playing_sounds m ! idx)) AND PLAYING_SOUNDS_MASK = 0"
  proof (cases "sound (playing_sounds m ! idx) = None \<or> stopMode (playing_sounds m ! idx)")
    case True
    then show ?thesis using al by (simp add: setStopMode_idem)
  next
    case False
    then show ?thesis using aligned_add[OF al] by (simp add: setStopMode_version)
  qed
  have upd: "\<And>s'. version s' AND PLAYING_SOUNDS_MASK = 0 \<Longrightarrow> table_ok (set_voice m idx s')"
    using assms by (auto simp: table_ok_def set_voice_def list_all_iff dest!: set_update_subset_insert[THEN subsetD])
  show ?thesis using Some assms upd[OF v] by (simp add: stop_sound_def Let_def)
qed

lemma stopped_upto_0: "stopped_upto 0 mixer5"
  by (simp add: stopped_upto_def mixer5_table_ok mixer5_fields)
     (simp add: mixer5_def initialize_def list_all_iff MAX_PLAYING_SOUNDS_def del: upt_Suc)

lemma stopped_upto_step:
  assumes s: "stopped_upto k m" and k: "Suc k < MAX_PLAYING_SOUNDS"
  shows "stopped_upto (Suc k) (play_stop m)"
proof -
  have ok: "table_ok m" and pcm: "pcm m = (\<lambda>_. asset5)" and mv: "master_volume m = 1"
    using s by (simp_all add: stopped_upto_def)
  have len: "length (playing_sounds m) = MAX_PLAYING_SOUNDS" using ok by (simp add: table_ok_def)
  have low: "\<And>i. 1 \<le> i \<Longrightarrow> i \<le> k \<Longrightarrow> sound (playing_sounds m ! i) = None \<and> stopMode (playing_sounds m ! i)
      \<and> volumeL (playing_sounds m ! i) = 1 / 2 \<and> volumeR (playing_sounds m ! i) = 1 / 2"
    using s by (auto simp: stopped_upto_def list_all_iff simp del: upt_Suc)
  have high: "\<And>i. k < i \<Longrightarrow> i < MAX_PLAYING_SOUNDS \<Longrightarrow> playing_sounds m ! i = PlayingSound_new"
    using s by (auto simp: stopped_upto_def list_all_iff simp del: upt_Suc)
  have zero: "playing_sounds m ! 0 = PlayingSound_new"
    using s by (simp add: stopped_upto_def)
  have f: "find (\<lambda>i. isEmpty (playing_sounds m ! i)) [1..<MAX_PLAYING_SOUNDS] = Some (Suc k)"
    by (rule find_upt_at) (use k low high in \<open>auto simp: isEmpty_def PlayingSound_new_def\<close>)
  have long: "\<not> samples (pcm m 0) \<le> 2" by (simp add: pcm asset5_fields)
  obtain hnd m1 where r: "play_sound_internal 0 1 1 0 0 1 False 0 m = (hnd, m1)"
    by (cases "play_sound_internal 0 1 1 0 0 1 False 0 m")
  note ps = play_success[OF len f long r]
  have nf: "\<not> (no_free_slot m \<or> samples (pcm m 0) \<le> 2)"
    using f long by (simp add: no_free_slot_find)
  have al: "fst (allocate_playing_sound m) = Some (Suc k)"
    using f by (simp add: allocate_playing_sound_def)
  have h2i: "handle_to_index m1 hnd = Some (Suc k)"
    using play_handle_cases[OF ok r] nf al by simp
  have ok1: "table_ok m1" by (rule play_table_ok[OF ok r])
  have len1: "length (playing_sounds m1) = MAX_PLAYING_SOUNDS" by (rule ps(4))
  have v1: "playing_sounds m1 ! Suc k =
     \<lparr> sound = Some 0, pos = 0, startPos = 0, stopPos = 4, pitch = 1,
       volume = 1, pan = 0, volumeL = 1, volumeR = 1, volumeTrendL = 0, volumeTrendR = 0,
       timeToStart = 0, channels = 1, version = 128, loop = False, stopMode = False,
       waitingStart = False \<rparr>"
    using ps(5) high[of "Suc k"] k
    by (simp add: pcm mv asset5_fields clamp_def Let_def PlayingSound_new_def)
  have others: "\<And>i. i \<noteq> Suc k \<Longrightarrow> playing_sounds m1 ! i = playing_sounds m ! i"
    using r f long
    by (auto simp: play_sound_internal_def allocate_playing_sound_def set_voice_def Let_def)
  have st: "play_stop m = set_voice m1 (Suc k) (setStopMode (pcm m1) (playing_sounds m1 ! Suc k))"
    using h2i by (simp add: play_stop_def r stop_sound_def v1 Let_def)
  have v2: "setStopMode (pcm m1) (playing_sounds m1 ! Suc k) =
     \<lparr> sound = None, pos = 0, startPos = 0, stopPos = 4, pitch = 1,
       volume = 1, pan = 0, volumeL = 1 / 2, volumeR = 1 / 2,
       volumeTrendL = - (1 / 10000), volumeTrendR = - (1 / 10000),
       timeToStart = 0, channels = 1, version = 256, loop = False, stopMode = True,
       waitingStart = False \<rparr>"
    by (simp add: v1 setStopMode_def ps(2) pcm asset5_fields getData_at_def to_unsigned_def
        sign_def Let_def)
  have ok2: "table_ok (play_stop m)"
    using stop_sound_table_ok[OF ok1, of hnd] by (simp add: play_stop_def r)
  have nth2: "\<And>i. i < MAX_PLAYING_SOUNDS \<Longrightarrow> playing_sounds (play_stop m) ! i =
      (if i = Suc k then
         \<lparr> sound = None, pos = 0, startPos = 0, stopPos = 4, pitch = 1,
           volume = 1, pan = 0, volumeL = 1 / 2, volumeR = 1 / 2,
           volumeTrendL = - (1 / 10000), volumeTrendR = - (1 / 10000),
           timeToStart = 0, channels = 1, version = 256, loop = False, stopMode = True,
           waitingStart = False \<rparr>
       else playing_sounds m ! i)"
    using len1 others by (simp add: st set_voice_def nth_list_update v2)
  have pcm2: "pcm (play_stop m) = (\<lambda>_. asset5)" by (simp add: st set_voice_def ps(2) pcm)
  have mv2: "master_volume (play_stop m) = 1" by (simp add: st set_voice_def ps(3) mv)
  have a: "list_all (\<lambda>i. sound (playing_sounds (play_stop m) ! i) = None \<and>
                stopMode (playing_sounds (play_stop m) ! i) \<and>
                volumeL (playing_sounds (play_stop m) ! i) = 1 / 2 \<and>
                volumeR (playing_sounds (play_stop m) ! i) = 1 / 2) [1..<Suc (Suc k)]"
    unfolding list_all_iff using k low by (auto simp: nth2 simp del: upt_Suc)
  have b: "list_all (\<lambda>i. playing_sounds (play_stop m) ! i = PlayingSound_new)
      (0 # [Suc (Suc k)..<MAX_PLAYING_SOUNDS])"
    unfolding list_all_iff using k high zero by (auto simp: nth2 simp del: upt_Suc)
  show ?thesis
    unfolding stopped_upto_def using ok2 pcm2 mv2 a b by simp
qed

lemma stopped_upto_funpow:
  "k < MAX_PLAYING_SOUNDS \<Longrightarrow> stopped_upto k ((play_stop ^^ k) mixer5)"
proof (induction k)
  case 0
  then show ?case by (simp add: stopped_upto_0)
next
  case (Suc k)
  then have "stopped_upto k ((play_stop ^^ k) mixer5)" by simp
  from stopped_upto_step[OF this Suc.prems] show ?case by simp
qed

lemma stopped_upto_null:
  assumes "stopped_upto k m" "k < MAX_PLAYING_SOUNDS"
  shows "list_all (\<lambda>s. sound s = None) (playing_sounds m)"
proof -
  have len: "length (playing_sounds m) = MAX_PLAYING_SOUNDS"
    using assms by (simp add: stopped_upto_def table_ok_def)
  have "sound (playing_sounds m ! i) = None" if "i < MAX_PLAYING_SOUNDS" for i
  proof (cases "1 \<le> i \<and> i \<le> k")
    case True
    then show ?thesis using assms by (auto simp: stopped_upto_def list_all_iff simp del: upt_Suc)
  next
    case False
    then have "playing_sounds m ! i = PlayingSound_new"
      using assms that by (cases "i = 0") (auto simp: stopped_upto_def list_all_iff simp del: upt_Suc)
    then show ?thesis by (simp add: PlayingSound_new_def)
  qed
  then show ?thesis using len by (auto simp: list_all_length)
qed

lemma stopped_upto_full:
  assumes "stopped_upto 127 m"
  shows "no_free_slot m"
  using assms
  by (auto simp: stopped_upto_def no_free_slot_def list_all_iff isEmpty_def MAX_PLAYING_SOUNDS_def
      simp del: upt_Suc)

lemma no_free_slot_cong:
  "playing_sounds m' = playing_sounds m \<Longrightarrow> no_free_slot m' = no_free_slot m"
  by (simp add: no_free_slot_def)


text \<open>
  Claim C2 does not hold of the code. \<^verbatim>\<open>setStopMode\<close> nulls the asset pointer, and
  \<^verbatim>\<open>mixTo\<close> starts with \<^verbatim>\<open>if (!sndData) return;\<close>, so the fade of a stopped voice is
  never run by a later call. After 127 rounds of play and stop every slot is in stop-fade
  with its gains still at 1/2; whatever callbacks follow, the gains stay there, no slot
  becomes empty, and play returns the zero handle.
\<close>

theorem stopped_voices_keep_their_slots:
  "\<forall>ns. no_free_slot (fst (callbacks 48000 2 ns ((play_stop ^^ 127) mixer5))) \<and>
        fst (play_sound_internal 0 1 1 0 0 1 False 0
               (fst (callbacks 48000 2 ns ((play_stop ^^ 127) mixer5)))) = PlayingSoundHandle_new \<and>
        stopMode (playing_sounds (fst (callbacks 48000 2 ns ((play_stop ^^ 127) mixer5))) ! 1) \<and>
        volumeL (playing_sounds (fst (callbacks 48000 2 ns ((play_stop ^^ 127) mixer5))) ! 1) = 1 / 2 \<and>
        volumeR (playing_sounds (fst (callbacks 48000 2 ns ((play_stop ^^ 127) mixer5))) ! 1) = 1 / 2"
proof
  fix ns
  let ?base = "(play_stop ^^ 127) mixer5"
  let ?m = "fst (callbacks 48000 2 ns ?base)"
  have s: "stopped_upto 127 ?base"
    by (rule stopped_upto_funpow) (simp add: MAX_PLAYING_SOUNDS_def)
  have null: "list_all (\<lambda>s. sound s = None) (playing_sounds ?base)"
    by (rule stopped_upto_null[OF s]) (simp add: MAX_PLAYING_SOUNDS_def)
  have same: "playing_sounds ?m = playing_sounds ?base" by (rule callbacks_null[OF null])
  have full: "no_free_slot ?m" using stopped_upto_full[OF s] no_free_slot_cong[OF same] by simp
  have v: "stopMode (playing_sounds ?base ! 1) \<and> volumeL (playing_sounds ?base ! 1) = 1 / 2
      \<and> volumeR (playing_sounds ?base ! 1) = 1 / 2"
    using s by (auto simp: stopped_upto_def list_all_iff simp del: upt_Suc)
  show "no_free_slot ?m \<and>
        fst (play_sound_internal 0 1 1 0 0 1 False 0 ?m) = PlayingSoundHandle_new \<and>
        stopMode (playing_sounds ?m ! 1) \<and>
        volumeL (playing_sounds ?m ! 1) = 1 / 2 \<and>
        volumeR (playing_sounds ?m ! 1) = 1 / 2"
    using full v by (simp add: play_fail_full[OF full] same)
qed

subsection \<open>Where the mix routine writes\<close>

















subsection \<open>Deferred voices\<close>


























end
